theory Spec2Isabelle
  imports Main
begin

section \<open>Python values used by the program\<close>

text \<open>
  A Python \<open>str\<close> is a sequence of Unicode code points, so \<open>len\<close>, slicing and
  \<open>strip\<close> count code points. The bytes of a file are an Isabelle \<open>string\<close>
  (a list of 8-bit characters); \<open>utf8_encode\<close> goes from the first to the second, as
  \<open>encoding="utf-8"\<close> does.
\<close>

type_synonym pystr = "nat list"

definition ustr :: "string \<Rightarrow> pystr" where
  "ustr s = map of_char s"

text \<open>The exceptions the program raises or lets through.\<close>

datatype error =
    SystemExit
  | RuntimeError
  | GitCommandError
  | InvalidGitRepositoryError
  | UnknownTimeZoneError
  | OverflowError
  | ValueError
  | IndexError
  | AttributeError
  | UnicodeEncodeError
  | APIError

text \<open>
  \<open>str.isspace\<close> for one code point: the white space table of CPython
  (\<open>_PyUnicode_IsWhitespace\<close>).
\<close>

definition isspace :: "nat \<Rightarrow> bool" where
  "isspace c \<longleftrightarrow>
     (9 \<le> c \<and> c \<le> 13) \<or> (28 \<le> c \<and> c \<le> 32) \<or> c = 133 \<or> c = 160 \<or> c = 5760 \<or>
     (8192 \<le> c \<and> c \<le> 8202) \<or> c = 8232 \<or> c = 8233 \<or> c = 8239 \<or> c = 8287 \<or> c = 12288"

definition lstrip :: "pystr \<Rightarrow> pystr" where
  "lstrip s = dropWhile isspace s"

definition rstrip :: "pystr \<Rightarrow> pystr" where
  "rstrip s = rev (dropWhile isspace (rev s))"

definition strip :: "pystr \<Rightarrow> pystr" where
  "strip s = rstrip (lstrip s)"

text \<open>\<open>s.split(sep)\<close> for a separator of one code point: never an empty list.\<close>

fun py_split :: "nat \<Rightarrow> pystr \<Rightarrow> pystr list" where
  "py_split sep [] = [[]]"
| "py_split sep (c # cs) =
     (if c = sep then [] # py_split sep cs
      else (case py_split sep cs of
              [] \<Rightarrow> [[c]]
            | seg # segs \<Rightarrow> (c # seg) # segs))"

text \<open>\<open>sep.join(segs)\<close>, the inverse the claims about \<open>split\<close> are stated with.\<close>

fun py_join :: "nat \<Rightarrow> pystr list \<Rightarrow> pystr" where
  "py_join sep [] = []"
| "py_join sep [seg] = seg"
| "py_join sep (seg # segs) = seg @ sep # py_join sep segs"

text \<open>\<open>sub in s\<close> on strings.\<close>

fun contains :: "pystr \<Rightarrow> pystr \<Rightarrow> bool" where
  "contains sub [] = (sub = [])"
| "contains sub (c # cs) = (take (length sub) (c # cs) = sub \<or> contains sub cs)"

text \<open>UTF-8, as \<open>str.encode("utf-8")\<close>: a surrogate code point cannot be encoded.\<close>

definition utf8_char :: "nat \<Rightarrow> error + string" where
  "utf8_char c =
     (if c < 128 then Inr [char_of c]
      else if c < 2048 then Inr [char_of (192 + c div 64), char_of (128 + c mod 64)]
      else if 55296 \<le> c \<and> c \<le> 57343 then Inl UnicodeEncodeError
      else if c < 65536 then
        Inr [char_of (224 + c div 4096), char_of (128 + c div 64 mod 64), char_of (128 + c mod 64)]
      else
        Inr [char_of (240 + c div 262144), char_of (128 + c div 4096 mod 64),
             char_of (128 + c div 64 mod 64), char_of (128 + c mod 64)])"

fun utf8_encode :: "pystr \<Rightarrow> error + string" where
  "utf8_encode [] = Inr []"
| "utf8_encode (c # cs) =
     (case utf8_char c of
        Inl e \<Rightarrow> Inl e
      | Inr b \<Rightarrow> (case utf8_encode cs of Inl e \<Rightarrow> Inl e | Inr bs \<Rightarrow> Inr (b @ bs)))"

section \<open>Dates and times: the library calls of the program\<close>

text \<open>
  The proleptic Gregorian calendar of Python's \<open>datetime\<close>: a date and its ordinal
  (day 1 is 0001-01-01), with the tables and the two conversions of the standard library.
\<close>

definition DAYS_IN_MONTH :: "int list" where
  "DAYS_IN_MONTH = [-1, 31, 28, 31, 30, 31, 30, 31, 31, 30, 31, 30, 31]"

definition DAYS_BEFORE_MONTH :: "int list" where
  "DAYS_BEFORE_MONTH = [-1, 0, 31, 59, 90, 120, 151, 181, 212, 243, 273, 304, 334]"

definition MAXORDINAL :: int where
  "MAXORDINAL = 3652059"

definition is_leap :: "int \<Rightarrow> bool" where
  "is_leap y \<longleftrightarrow> y mod 4 = 0 \<and> (y mod 100 \<noteq> 0 \<or> y mod 400 = 0)"

definition days_before_year :: "int \<Rightarrow> int" where
  "days_before_year y = (let p = y - 1 in p * 365 + p div 4 - p div 100 + p div 400)"

definition days_in_month :: "int \<Rightarrow> int \<Rightarrow> int" where
  "days_in_month y m = (if m = 2 \<and> is_leap y then 29 else DAYS_IN_MONTH ! nat m)"

definition days_before_month :: "int \<Rightarrow> int \<Rightarrow> int" where
  "days_before_month y m = DAYS_BEFORE_MONTH ! nat m + (if m > 2 \<and> is_leap y then 1 else 0)"

definition ymd2ord :: "int \<Rightarrow> int \<Rightarrow> int \<Rightarrow> int" where
  "ymd2ord y m d = days_before_year y + days_before_month y m + d"

text \<open>
  The last step of \<open>_ord2ymd\<close>: month and day from the 0-based day of the year. The
  month is estimated by a shift, too large by at most one.
\<close>

definition month_day :: "bool \<Rightarrow> int \<Rightarrow> int \<times> int" where
  "month_day leapyear r =
     (let m = (r + 50) div 32;
          preceding = DAYS_BEFORE_MONTH ! nat m + (if m > 2 \<and> leapyear then 1 else 0)
      in if preceding > r then
           (let m' = m - 1;
                preceding' = preceding - (DAYS_IN_MONTH ! nat m' + (if m' = 2 \<and> leapyear then 1 else 0))
            in (m', r - preceding' + 1))
         else (m, r - preceding + 1))"

definition ord2ymd :: "int \<Rightarrow> int \<times> int \<times> int" where
  "ord2ymd n =
     (let n0 = n - 1;
          n400 = n0 div 146097; r400 = n0 mod 146097;
          n100 = r400 div 36524; r100 = r400 mod 36524;
          n4 = r100 div 1461; r4 = r100 mod 1461;
          n1 = r4 div 365; r1 = r4 mod 365;
          y = n400 * 400 + 1 + n100 * 100 + n4 * 4 + n1
      in if n1 = 4 \<or> n100 = 4 then (y - 1, 12, 31)
         else (case month_day (n1 = 3 \<and> (n4 \<noteq> 24 \<or> n100 = 3)) r1 of (m, d) \<Rightarrow> (y, m, d)))"

text \<open>
  The \<open>tzinfo\<close> a \<open>pytz\<close> zone attaches to a datetime: the zone's name and the UTC
  offset in force, in minutes. A \<open>tzone\<close> is the zone object \<open>pytz.timezone\<close> returns.
\<close>

datatype tzone = TZone pystr

record tzinfo =
  tz_zone :: tzone
  tz_utcoffset :: int

record datetime =
  dt_year :: int
  dt_month :: int
  dt_day :: int
  dt_hour :: int
  dt_minute :: int
  dt_second :: int
  dt_microsecond :: int
  dt_tzinfo :: "tzinfo option"

text \<open>What the constructor of \<open>datetime\<close> checks: every datetime object satisfies it.\<close>

definition valid_datetime :: "datetime \<Rightarrow> bool" where
  "valid_datetime d \<longleftrightarrow>
     1 \<le> dt_year d \<and> dt_year d \<le> 9999 \<and> 1 \<le> dt_month d \<and> dt_month d \<le> 12 \<and>
     1 \<le> dt_day d \<and> dt_day d \<le> days_in_month (dt_year d) (dt_month d) \<and>
     0 \<le> dt_hour d \<and> dt_hour d < 24 \<and> 0 \<le> dt_minute d \<and> dt_minute d < 60 \<and>
     0 \<le> dt_second d \<and> dt_second d < 60 \<and> 0 \<le> dt_microsecond d \<and> dt_microsecond d < 1000000"

definition toordinal :: "datetime \<Rightarrow> int" where
  "toordinal d = ymd2ord (dt_year d) (dt_month d) (dt_day d)"

text \<open>\<open>datetime.timedelta\<close>: normalised days, seconds and microseconds.\<close>

record timedelta =
  td_days :: int
  td_seconds :: int
  td_microseconds :: int

definition timedelta_new :: "int \<Rightarrow> int \<Rightarrow> int \<Rightarrow> int \<Rightarrow> int \<Rightarrow> error + timedelta" where
  "timedelta_new days seconds microseconds minutes hours =
     (let s = seconds + minutes * 60 + hours * 3600 + microseconds div 1000000;
          d = days + s div 86400
      in if \<bar>d\<bar> > 999999999 then Inl OverflowError
         else Inr \<lparr>td_days = d, td_seconds = s mod 86400, td_microseconds = microseconds mod 1000000\<rparr>)"

text \<open>\<open>datetime.__add__\<close>: through the ordinal, in local clock time, keeping the tzinfo.\<close>

definition datetime_add :: "datetime \<Rightarrow> timedelta \<Rightarrow> error + datetime" where
  "datetime_add d other =
     (case timedelta_new (toordinal d) (dt_second d) (dt_microsecond d) (dt_minute d) (dt_hour d) of
        Inl e \<Rightarrow> Inl e
      | Inr self \<Rightarrow>
          (case timedelta_new (td_days self + td_days other) (td_seconds self + td_seconds other)
                  (td_microseconds self + td_microseconds other) 0 0 of
             Inl e \<Rightarrow> Inl e
           | Inr delta \<Rightarrow>
               (let hour = td_seconds delta div 3600; rem = td_seconds delta mod 3600;
                    minute = rem div 60; second = rem mod 60
                in if 0 < td_days delta \<and> td_days delta \<le> MAXORDINAL then
                     (case ord2ymd (td_days delta) of
                        (y, m, dd) \<Rightarrow>
                          Inr \<lparr>dt_year = y, dt_month = m, dt_day = dd, dt_hour = hour,
                               dt_minute = minute, dt_second = second,
                               dt_microsecond = td_microseconds delta, dt_tzinfo = dt_tzinfo d\<rparr>)
                   else Inl OverflowError)))"

text \<open>
  \<open>dateutil.relativedelta\<close>, with the fields the program sets (\<open>hours\<close>, \<open>days\<close>,
  \<open>weeks\<close>); every other relative field is 0 and every absolute field is \<open>None\<close>.
  The constructor folds weeks into days and \<open>_fix\<close> carries whole days out of the hours.
\<close>

record relativedelta =
  rd_days :: int
  rd_hours :: int

definition sign :: "int \<Rightarrow> int" where
  "sign x = (if x < 0 then -1 else 1)"

definition relativedelta_new :: "int \<Rightarrow> int \<Rightarrow> int \<Rightarrow> relativedelta" where
  "relativedelta_new hours days weeks =
     (let d = days + weeks * 7
      in if \<bar>hours\<bar> > 23 then
           (let s = sign hours
            in \<lparr>rd_days = d + (hours * s) div 24 * s, rd_hours = (hours * s) mod 24 * s\<rparr>)
         else \<lparr>rd_days = d, rd_hours = hours\<rparr>)"

definition relativedelta_neg :: "relativedelta \<Rightarrow> relativedelta" where
  "relativedelta_neg r = relativedelta_new (- rd_hours r) (- rd_days r) 0"

text \<open>
  \<open>dt - delta\<close> is \<open>(-delta).__radd__(dt)\<close>: with no years and months the date is kept
  up to the clipping of the day to the month's length, then the days and hours are added as
  a \<open>timedelta\<close>.
\<close>

definition relativedelta_radd :: "relativedelta \<Rightarrow> datetime \<Rightarrow> error + datetime" where
  "relativedelta_radd r d =
     (let day = min (days_in_month (dt_year d) (dt_month d)) (dt_day d)
      in case timedelta_new (rd_days r) 0 0 0 (rd_hours r) of
           Inl e \<Rightarrow> Inl e
         | Inr td \<Rightarrow> datetime_add (d\<lparr>dt_day := day\<rparr>) td)"

definition datetime_sub :: "datetime \<Rightarrow> relativedelta \<Rightarrow> error + datetime" where
  "datetime_sub d r = relativedelta_radd (relativedelta_neg r) d"

text \<open>
  \<open>strftime\<close>: the directives the program uses. A field of a datetime is in range, so
  \<open>%d\<close>, \<open>%m\<close>, \<open>%y\<close>, \<open>%H\<close>, \<open>%M\<close> and \<open>%S\<close> are two decimal digits and
  \<open>%Y\<close> is four.
\<close>

definition digit :: "int \<Rightarrow> nat" where
  "digit n = 48 + nat (n mod 10)"

definition pad2 :: "int \<Rightarrow> pystr" where
  "pad2 n = [digit (n div 10), digit n]"

definition pad4 :: "int \<Rightarrow> pystr" where
  "pad4 n = [digit (n div 1000), digit (n div 100), digit (n div 10), digit n]"

definition strftime_z :: "datetime \<Rightarrow> pystr" where
  "strftime_z d =
     (case dt_tzinfo d of
        None \<Rightarrow> []
      | Some tz \<Rightarrow>
          (let off = tz_utcoffset tz
           in (if off < 0 then ustr ''-'' else ustr ''+'') @ pad2 (\<bar>off\<bar> div 60) @ pad2 (\<bar>off\<bar> mod 60)))"

text \<open>\<open>now.strftime('%d.%m.%y')\<close>\<close>

definition strftime_dmy :: "datetime \<Rightarrow> pystr" where
  "strftime_dmy d = pad2 (dt_day d) @ ustr ''.'' @ pad2 (dt_month d) @ ustr ''.'' @ pad2 (dt_year d mod 100)"

text \<open>\<open>now.strftime('%H:%M')\<close>\<close>

definition strftime_HM :: "datetime \<Rightarrow> pystr" where
  "strftime_HM d = pad2 (dt_hour d) @ ustr '':'' @ pad2 (dt_minute d)"

text \<open>\<open>when.strftime("%Y-%m-%d %H:%M:%S %z")\<close>\<close>

definition strftime_iso :: "datetime \<Rightarrow> pystr" where
  "strftime_iso d =
     pad4 (dt_year d) @ ustr ''-'' @ pad2 (dt_month d) @ ustr ''-'' @ pad2 (dt_day d) @ ustr '' '' @
     pad2 (dt_hour d) @ ustr '':'' @ pad2 (dt_minute d) @ ustr '':'' @ pad2 (dt_second d) @ ustr '' '' @
     strftime_z d"

text \<open>\<open>when.date().isoformat()\<close>\<close>

definition date_isoformat :: "datetime \<Rightarrow> pystr" where
  "date_isoformat d = pad4 (dt_year d) @ ustr ''-'' @ pad2 (dt_month d) @ ustr ''-'' @ pad2 (dt_day d)"

text \<open>\<open>replace(hour=12, minute=0, second=0, microsecond=0)\<close>\<close>

definition replace_noon :: "datetime \<Rightarrow> datetime" where
  "replace_noon d = d\<lparr>dt_hour := 12, dt_minute := 0, dt_second := 0, dt_microsecond := 0\<rparr>"

section \<open>The outside world: file store, git repository, remote services\<close>

text \<open>
  The program is sequential orchestration of external tools. Its state is the clone on
  disk (files, git index, history, branches, remotes, configuration) and the trace of the
  effects it has attempted; what the tools answer is an \<open>env\<close>, asked with the number of
  the request (\<open>ticks\<close>), so that two requests may be answered differently.
\<close>

type_synonym path = "pystr list"

type_synonym tree = "path \<rightharpoonup> string"

record actor =
  actor_name :: pystr
  actor_email :: pystr

record commit =
  c_message :: pystr
  c_author :: actor
  c_committer :: actor
  c_author_date :: "pystr option"
  c_commit_date :: "pystr option"
  c_tree :: tree

datatype push_mode = Plain | SetUpstream | Force

datatype git_cmd =
    GitInit
  | GitClone pystr pystr
  | GitFetchAllPrune
  | GitLsRemoteHeads pystr
  | GitCheckoutB pystr "pystr option"
  | GitCheckout pystr
  | GitResetHard pystr
  | GitRemoteAdd pystr pystr
  | GitRemoteSetUrl pystr pystr
  | GitAddAll
  | GitPush pystr pystr push_mode

datatype log_msg =
    MsgCloning
  | MsgRecloning
  | MsgRemoteAdded pystr pystr
  | MsgRemoteUrlUpdate pystr pystr pystr
  | MsgSync pystr
  | MsgNothingToCommit
  | MsgNoUpstream
  | MsgPushOriginFailed
  | MsgPushFailed pystr
  | MsgFileUpdated path
  | MsgFileUpdatedN int int path
  | MsgDateFileUpdated pystr path

datatype event =
    Git git_cmd
  | CommitCreated commit
  | ConfigWritten pystr pystr
  | OsSystemGitConfigGlobal pystr pystr
  | Rmtree
  | FileWritten path
  | FileAppended path
  | ChatCompletion pystr "(pystr \<times> pystr) list"
  | Slept int
  | LogInfo log_msg
  | LogError log_msg

record openai_client =
  client_api_key :: pystr
  client_base_url :: pystr
  client_default_headers :: "(pystr \<times> pystr) list option"

record env =
  getenv :: "pystr \<Rightarrow> pystr option"
  pytz_timezone :: "pystr \<Rightarrow> tzone option"
  datetime_now :: "nat \<Rightarrow> tzone \<Rightarrow> datetime"
  astimezone :: "datetime \<Rightarrow> tzone \<Rightarrow> datetime"
  localize :: "tzone \<Rightarrow> datetime \<Rightarrow> datetime"
  strptime_ymd :: "pystr \<Rightarrow> datetime option"
  date_today_isoformat :: "nat \<Rightarrow> pystr"
  uuid4_hex :: "nat \<Rightarrow> pystr"
  git_fails :: "nat \<Rightarrow> git_cmd \<Rightarrow> bool"
  ls_remote_output :: "nat \<Rightarrow> pystr \<Rightarrow> pystr"
  resolve_ref :: "nat \<Rightarrow> pystr \<Rightarrow> commit list option"
  origin_default_branch :: "nat \<Rightarrow> pystr"
  config_reader_fails :: "nat \<Rightarrow> bool"
  config_writer_fails :: "nat \<Rightarrow> bool"
  openai_installed :: bool
  chat_completions_create ::
    "nat \<Rightarrow> openai_client \<Rightarrow> pystr \<Rightarrow> (pystr \<times> pystr) list \<Rightarrow> error + pystr option list"

record world =
  path_exists :: bool
  repo_valid :: bool
  files :: tree
  git_index :: tree
  head_commits :: "commit list"
  active_branch :: "pystr option"
  heads :: "pystr \<rightharpoonup> commit list"
  remotes :: "pystr \<rightharpoonup> pystr"
  tracking :: "pystr \<rightharpoonup> pystr"
  local_user_name :: "pystr option"
  local_user_email :: "pystr option"
  global_user_name :: "pystr option"
  global_user_email :: "pystr option"
  trace :: "event list"
  ticks :: nat

type_synonym 'a prog = "world \<Rightarrow> (error + 'a) \<times> world"

definition bind :: "'a prog \<Rightarrow> ('a \<Rightarrow> 'b prog) \<Rightarrow> 'b prog" where
  "bind m f w = (case m w of (Inl e, w') \<Rightarrow> (Inl e, w') | (Inr x, w') \<Rightarrow> f x w')"

definition emit :: "event \<Rightarrow> world \<Rightarrow> world" where
  "emit ev w = w\<lparr>trace := trace w @ [ev]\<rparr>"

definition tick :: "world \<Rightarrow> world" where
  "tick w = w\<lparr>ticks := Suc (ticks w)\<rparr>"

definition tree_of :: "commit list \<Rightarrow> tree" where
  "tree_of cs = (case cs of [] \<Rightarrow> Map.empty | _ \<Rightarrow> c_tree (last cs))"

definition head_tree :: "world \<Rightarrow> tree" where
  "head_tree w = tree_of (head_commits w)"

text \<open>
  Moving HEAD from one tree to another: the paths that differ between the two are
  rewritten in the index and in the working tree, the others keep local changes.
\<close>

definition switch_tree :: "tree \<Rightarrow> tree \<Rightarrow> tree \<Rightarrow> tree" where
  "switch_tree old new t = (\<lambda>p. if old p \<noteq> new p then new p else t p)"

text \<open>What a git command does when it succeeds.\<close>

fun git_effect :: "env \<Rightarrow> nat \<Rightarrow> git_cmd \<Rightarrow> world \<Rightarrow> world" where
  "git_effect env t GitInit w =
     (if path_exists w \<and> repo_valid w then w
      else w\<lparr>path_exists := True, repo_valid := True, git_index := Map.empty, head_commits := [],
             active_branch := Some (origin_default_branch env t), heads := Map.empty,
             remotes := Map.empty, tracking := Map.empty,
             local_user_name := None, local_user_email := None\<rparr>)"
| "git_effect env t (GitClone url p) w =
     (let b = origin_default_branch env t;
          cs = (case resolve_ref env t (ustr ''origin/'' @ b) of None \<Rightarrow> [] | Some cs \<Rightarrow> cs)
      in w\<lparr>path_exists := True, repo_valid := True, files := tree_of cs, git_index := tree_of cs,
             head_commits := cs, active_branch := Some b, heads := [b \<mapsto> cs],
             remotes := [ustr ''origin'' \<mapsto> url], tracking := [b \<mapsto> ustr ''origin''],
             local_user_name := None, local_user_email := None\<rparr>)"
| "git_effect env t GitFetchAllPrune w = w"
| "git_effect env t (GitLsRemoteHeads b) w = w"
| "git_effect env t (GitCheckoutB b None) w =
     w\<lparr>active_branch := Some b, heads := (heads w)(b \<mapsto> head_commits w)\<rparr>"
| "git_effect env t (GitCheckoutB b (Some start)) w =
     (case resolve_ref env t start of
        None \<Rightarrow> w
      | Some cs \<Rightarrow>
          w\<lparr>files := switch_tree (head_tree w) (tree_of cs) (files w),
            git_index := switch_tree (head_tree w) (tree_of cs) (git_index w),
            head_commits := cs, active_branch := Some b, heads := (heads w)(b \<mapsto> cs),
            tracking := (tracking w)(b \<mapsto> ustr ''origin'')\<rparr>)"
| "git_effect env t (GitCheckout b) w =
     (case heads w b of
        None \<Rightarrow> w
      | Some cs \<Rightarrow>
          w\<lparr>files := switch_tree (head_tree w) (tree_of cs) (files w),
            git_index := switch_tree (head_tree w) (tree_of cs) (git_index w),
            head_commits := cs, active_branch := Some b\<rparr>)"
| "git_effect env t (GitResetHard r) w =
     (case resolve_ref env t r of
        None \<Rightarrow> w
      | Some cs \<Rightarrow>
          w\<lparr>files := (\<lambda>p. if git_index w p \<noteq> None \<or> tree_of cs p \<noteq> None then tree_of cs p
                           else files w p),
            git_index := tree_of cs, head_commits := cs,
            heads := (case active_branch w of None \<Rightarrow> heads w | Some b \<Rightarrow> (heads w)(b \<mapsto> cs))\<rparr>)"
| "git_effect env t (GitRemoteAdd n url) w = w\<lparr>remotes := (remotes w)(n \<mapsto> url)\<rparr>"
| "git_effect env t (GitRemoteSetUrl n url) w = w\<lparr>remotes := (remotes w)(n \<mapsto> url)\<rparr>"
| "git_effect env t GitAddAll w = w\<lparr>git_index := files w\<rparr>"
| "git_effect env t (GitPush r b mode) w =
     (if mode = SetUpstream then w\<lparr>tracking := (tracking w)(b \<mapsto> r)\<rparr> else w)"

text \<open>
  One git command: it is recorded in the trace, and it either fails with
  \<open>GitCommandError\<close>, changing nothing, or has its effect.
\<close>

definition git :: "env \<Rightarrow> git_cmd \<Rightarrow> unit prog" where
  "git env cmd w =
     (let t = ticks w; w1 = tick (emit (Git cmd) w)
      in if git_fails env t cmd then (Inl GitCommandError, w1)
         else (Inr (), git_effect env t cmd w1))"

definition log_info :: "log_msg \<Rightarrow> world \<Rightarrow> world" where
  "log_info m w = emit (LogInfo m) w"

definition log_error :: "log_msg \<Rightarrow> world \<Rightarrow> world" where
  "log_error m w = emit (LogError m) w"

text \<open>The value \<open>config_reader().get_value("user", k)\<close> finds: the clone's, else the user's.\<close>

definition cfg_user_name :: "world \<Rightarrow> pystr option" where
  "cfg_user_name w = (case local_user_name w of Some n \<Rightarrow> Some n | None \<Rightarrow> global_user_name w)"

definition cfg_user_email :: "world \<Rightarrow> pystr option" where
  "cfg_user_email w = (case local_user_email w of Some n \<Rightarrow> Some n | None \<Rightarrow> global_user_email w)"

text \<open>\<open>repo.is_dirty(index=True, working_tree=True, untracked_files=True)\<close>\<close>

definition is_dirty :: "world \<Rightarrow> bool" where
  "is_dirty w \<longleftrightarrow> git_index w \<noteq> head_tree w \<or> files w \<noteq> git_index w"

section \<open>The program\<close>

subsection \<open>Settings\<close>

record settings =
  repo_url :: pystr
  repo_path :: pystr
  branch :: pystr
  secondary_remote_name :: pystr
  secondary_remote_url :: "pystr option"
  force_push_secondary :: bool
  timezone :: pystr
  author_name :: pystr
  author_email :: pystr
  openai_api_key :: "pystr option"
  openai_base_url :: pystr
  openai_model :: pystr

text \<open>
  The texts of the program that are not ASCII are given by their code points:
  \<open>AI_PROMPT\<close>, the system instruction, the context labels and the dash of the commit
  message of \<open>op_push\<close>.
\<close>

definition AI_PROMPT :: pystr where
  "AI_PROMPT =
     [1058, 1099, 32, 8212, 32, 1075, 1077, 1085, 1077, 1088, 1072, 1090, 1086, 1088, 32, 1082,
     1086, 1088, 1086, 1090, 1082, 1080, 1093, 32, 103, 105, 116, 45, 99, 111, 109, 109, 105,
     116, 32, 109, 101, 115, 115, 97, 103, 101, 115, 32, 1076, 1083, 1103, 32, 1087, 1088, 1086,
     1077, 1082, 1090, 1072, 32, 81, 82, 45, 73, 78, 32, 40, 1089, 1077, 1088, 1074, 1080, 1089,
     32, 1075, 1077, 1085, 1077, 1088, 1072, 1094, 1080, 1080, 32, 1076, 1080, 1085, 1072, 1084,
     1080, 1095, 1077, 1089, 1082, 1080, 1093, 32, 81, 82, 32, 43, 32, 1072, 1085, 1072, 1083,
     1080, 1090, 1080, 1082, 1072, 41, 46, 10, 10, 1055, 1088, 1072, 1074, 1080, 1083, 1072, 58,
     10, 45, 32, 1088, 1091, 1089, 1089, 1082, 1080, 1081, 32, 1103, 1079, 1099, 1082, 32, 40,
     1077, 1089, 1083, 1080, 32, 1085, 1077, 32, 1091, 1082, 1072, 1079, 1072, 1085, 1086, 32,
     1076, 1088, 1091, 1075, 1086, 1077, 41, 10, 45, 32, 1076, 1083, 1080, 1085, 1072, 32, 8804,
     50, 48, 48, 32, 1089, 1080, 1084, 1074, 1086, 1083, 1086, 1074, 10, 45, 32, 49, 32, 1089,
     1086, 1086, 1073, 1097, 1077, 1085, 1080, 1077, 44, 32, 1073, 1077, 1079, 32, 1089, 1082,
     1086, 1073, 1086, 1082, 44, 32, 1073, 1077, 1079, 32, 1086, 1073, 1098, 1103, 1089, 1085,
     1077, 1085, 1080, 1081, 32, 1079, 1072, 1076, 1072, 1095, 1080, 10, 45, 32, 1089, 1090,
     1080, 1083, 1100, 58, 32, 1083, 1105, 1075, 1082, 1080, 1081, 44, 32, 1086, 1087, 1090,
     1080, 1084, 1080, 1089, 1090, 1080, 1095, 1085, 1099, 1081, 44, 32, 1080, 1088, 1086, 1085,
     1080, 1095, 1085, 1099, 1081, 32, 1048, 1051, 1048, 32, 1087, 1086, 1083, 1085, 1086, 1089,
     1090, 1100, 1102, 32, 1089, 1077, 1088, 1100, 1105, 1079, 1085, 1099, 1081, 10, 45, 32,
     1086, 1073, 1103, 1079, 1072, 1090, 1077, 1083, 1100, 1085, 1086, 32, 49, 8211, 50, 32,
     1091, 1084, 1077, 1089, 1090, 1085, 1099, 1093, 32, 1101, 1084, 1086, 1076, 1079, 1080, 32,
     1074, 32, 1082, 1086, 1085, 1094, 1077, 10, 45, 32, 1090, 1077, 1084, 1072, 1090, 1080,
     1082, 1072, 32, 8212, 32, 1088, 1072, 1073, 1086, 1090, 1072, 32, 1088, 1072, 1079, 1088,
     1072, 1073, 1086, 1090, 1095, 1080, 1082, 1072, 32, 1074, 32, 81, 82, 45, 73, 78, 58, 32,
     102, 114, 111, 110, 116, 101, 110, 100, 47, 98, 97, 99, 107, 101, 110, 100, 47, 100, 101,
     118, 111, 112, 115, 47, 1072, 1088, 1093, 1080, 1090, 1077, 1082, 1090, 1091, 1088, 1072,
     47, 1080, 1085, 1092, 1088, 1072, 1089, 1090, 1088, 1091, 1082, 1090, 1091, 1088, 1072, 47,
     77, 76, 47, 1073, 1086, 1090, 1099, 47, 85, 84, 77, 47, 1072, 1085, 1072, 1083, 1080, 1090,
     1080, 1082, 1072, 10, 45, 32, 1082, 1086, 1084, 1084, 1080, 1090, 32, 1074, 1099, 1075,
     1083, 1103, 1076, 1080, 1090, 32, 1082, 1072, 1082, 32, 1083, 1080, 1095, 1085, 1072, 1103,
     32, 1084, 1072, 1083, 1077, 1085, 1100, 1082, 1072, 1103, 32, 1079, 1072, 1084, 1077, 1090,
     1082, 1072, 32, 1076, 1085, 1103, 32, 1088, 1072, 1079, 1088, 1072, 1073, 1086, 1090, 1095,
     1080, 1082, 1072, 10, 45, 32, 1078, 1077, 1083, 1072, 1090, 1077, 1083, 1100, 1085, 1086,
     32, 1080, 1089, 1087, 1086, 1083, 1100, 1079, 1086, 1074, 1072, 1090, 1100, 32, 1085, 1072,
     1079, 1074, 1072, 1085, 1080, 1103, 32, 1090, 1077, 1093, 1085, 1086, 1083, 1086, 1075,
     1080, 1081, 44, 32, 1090, 1077, 1089, 1090, 1099, 44, 32, 65, 80, 73, 44, 32, 1073, 1072,
     1079, 1099, 44, 32, 81, 82, 32, 1092, 1086, 1088, 1084, 1072, 1090, 1099, 10, 45, 32, 1082,
     1072, 1078, 1076, 1099, 1081, 32, 1082, 1086, 1084, 1084, 1080, 1090, 32, 1089, 1074, 1103,
     1079, 1072, 1085, 32, 1089, 32, 81, 82, 45, 73, 78, 32, 40, 1092, 1080, 1095, 1072, 47,
     1092, 1080, 1082, 1089, 47, 1080, 1085, 1092, 1088, 1072, 47, 1090, 1077, 1089, 1090, 47,
     1080, 1076, 1077, 1103, 41, 10, 10, 1056, 1077, 1078, 1080, 1084, 58, 32, 1074, 1099, 1076,
     1072, 1081, 32, 49, 32, 1082, 1086, 1088, 1086, 1090, 1082, 1080, 1081, 32, 99, 111, 109,
     109, 105, 116, 32, 109, 101, 115, 115, 97, 103, 101, 32, 40, 1090, 1086, 1083, 1100, 1082,
     1086, 32, 1090, 1077, 1082, 1089, 1090, 41, 46]"

definition AI_SYSTEM :: pystr where
  "AI_SYSTEM =
     [1058, 1099, 32, 8212, 32, 1083, 1072, 1082, 1086, 1085, 1080, 1095, 1085, 1099, 1081, 32,
     1075, 1077, 1085, 1077, 1088, 1072, 1090, 1086, 1088, 32, 99, 111, 109, 109, 105, 116, 32,
     109, 101, 115, 115, 97, 103, 101, 115, 46]"

definition CONTEXT_LABEL :: pystr where
  "CONTEXT_LABEL = [10, 1050, 1086, 1085, 1090, 1077, 1082, 1089, 1090, 58, 32]"

definition DAY_LABEL :: pystr where
  "DAY_LABEL = [1076, 1077, 1085, 1100, 32]"

definition FOR_QR_IN :: pystr where
  "FOR_QR_IN = [32, 1076, 1083, 1103, 32, 81, 82, 45, 73, 78]"

definition EM_DASH :: pystr where
  "EM_DASH = [32, 8212, 32]"

text \<open>Truth of a Python string and of an optional one: \<open>None\<close> and \<open>""\<close> are false.\<close>

definition truthy :: "pystr option \<Rightarrow> bool" where
  "truthy x = (case x of None \<Rightarrow> False | Some s \<Rightarrow> s \<noteq> [])"

definition getenv_default :: "env \<Rightarrow> pystr \<Rightarrow> pystr \<Rightarrow> pystr" where
  "getenv_default env k dflt = (case getenv env k of None \<Rightarrow> dflt | Some v \<Rightarrow> v)"

definition load_settings :: "env \<Rightarrow> pystr \<Rightarrow> pystr option \<Rightarrow> error + settings" where
  "load_settings env DEFAULT_REPO_PATH repo_url_arg =
     (let url = (if truthy repo_url_arg then repo_url_arg else getenv env (ustr ''REPO_URL''))
      in case url of
           None \<Rightarrow> Inl SystemExit
         | Some u \<Rightarrow>
             if u = [] then Inl SystemExit
             else Inr \<lparr>
               repo_url = u,
               repo_path = getenv_default env (ustr ''REPO_PATH'') DEFAULT_REPO_PATH,
               branch = getenv_default env (ustr ''BRANCH'') (ustr ''main''),
               secondary_remote_name = getenv_default env (ustr ''SECONDARY_REMOTE_NAME'') (ustr ''gitlab''),
               secondary_remote_url =
                 (if truthy (getenv env (ustr ''SECONDARY_REMOTE_URL''))
                  then getenv env (ustr ''SECONDARY_REMOTE_URL'') else None),
               force_push_secondary = (getenv_default env (ustr ''FORCE_PUSH_SECONDARY'') (ustr ''1'') = ustr ''1''),
               timezone = getenv_default env (ustr ''TIMEZONE'') (ustr ''Europe/Amsterdam''),
               author_name = getenv_default env (ustr ''GIT_AUTHOR_NAME'') [],
               author_email = getenv_default env (ustr ''GIT_AUTHOR_EMAIL'') [],
               openai_api_key = getenv env (ustr ''OPENAI_API_KEY''),
               openai_base_url =
                 getenv_default env (ustr ''OPENAI_BASE_URL'') (ustr ''https://api.proxyapi.ru/deepseek/''),
               openai_model = getenv_default env (ustr ''OPENAI_MODEL'') (ustr ''deepseek-chat'')\<rparr>)"

subsection \<open>Git helpers\<close>

definition ret :: "'a \<Rightarrow> 'a prog" where
  "ret x w = (Inr x, w)"

definition ensure_repo :: "env \<Rightarrow> pystr \<Rightarrow> pystr \<Rightarrow> unit prog" where
  "ensure_repo env repo_path' git_url w =
     (if \<not> path_exists w then git env (GitClone git_url repo_path') (log_info MsgCloning w)
      else if repo_valid w then (Inr (), w)
      else git env (GitClone git_url repo_path')
             (log_info MsgRecloning (emit Rmtree (w\<lparr>path_exists := False, files := Map.empty\<rparr>))))"

definition ensure_remote_url :: "env \<Rightarrow> pystr \<Rightarrow> pystr \<Rightarrow> unit prog" where
  "ensure_remote_url env expected_url name w =
     (case remotes w name of
        None \<Rightarrow>
          bind (git env (GitRemoteAdd name expected_url))
            (\<lambda>_ w'. (Inr (), log_info (MsgRemoteAdded name expected_url) w')) w
      | Some current \<Rightarrow>
          if current \<noteq> expected_url then
            git env (GitRemoteSetUrl name expected_url)
              (log_info (MsgRemoteUrlUpdate name current expected_url) w)
          else (Inr (), w))"

definition remote_branch_exists :: "env \<Rightarrow> pystr \<Rightarrow> world \<Rightarrow> bool \<times> world" where
  "remote_branch_exists env branch' w =
     (let t = ticks w; w1 = tick (emit (Git (GitLsRemoteHeads branch')) w)
      in if git_fails env t (GitLsRemoteHeads branch') then (False, w1)
         else (strip (ls_remote_output env t branch') \<noteq> [], w1))"

definition sync_with_origin :: "env \<Rightarrow> pystr \<Rightarrow> unit prog" where
  "sync_with_origin env branch' w =
     bind (git env GitFetchAllPrune)
       (\<lambda>_ w1.
          case remote_branch_exists env branch' w1 of
            (True, w2) \<Rightarrow>
              bind (git env (GitCheckoutB branch' (Some (ustr ''origin/'' @ branch'))))
                (\<lambda>_. git env (GitResetHard (ustr ''origin/'' @ branch'))) w2
          | (False, w2) \<Rightarrow>
              if heads w2 branch' \<noteq> None then git env (GitCheckout branch') w2
              else git env (GitCheckoutB branch' None) w2)
       (log_info (MsgSync branch') w)"

text \<open>
  \<open>_ensure_repo_identity\<close>. The values \<open>get_value\<close> returns are taken as strings. A
  failure of \<open>config_reader()\<close> or a missing key leaves the \<open>try\<close> block at that point:
  a missing \<open>user.name\<close> also skips the lookup of the email.
\<close>

definition ensure_repo_identity :: "env \<Rightarrow> settings \<Rightarrow> actor prog" where
  "ensure_repo_identity env settings w =
     (let name0 = author_name settings; email0 = author_email settings;
          (name, email, w1) =
            (if name0 = [] \<or> email0 = [] then
               (if config_reader_fails env (ticks w) then (name0, email0, tick w)
                else
                  (case (if name0 \<noteq> [] then Some name0 else cfg_user_name w) of
                     None \<Rightarrow> (name0, email0, tick w)
                   | Some n \<Rightarrow>
                       (case (if email0 \<noteq> [] then Some email0 else cfg_user_email w) of
                          None \<Rightarrow> (n, email0, tick w)
                        | Some e \<Rightarrow> (n, e, tick w))))
             else (name0, email0, w))
      in if name = [] \<or> email = [] then (Inl SystemExit, w1)
         else
           (Inr \<lparr>actor_name = name, actor_email = email\<rparr>,
            if config_writer_fails env (ticks w1) then tick w1
            else emit (ConfigWritten name email)
                   ((tick w1)\<lparr>local_user_name := Some name, local_user_email := Some email\<rparr>)))"

subsection \<open>The activity file\<close>

definition update_activity_file ::
    "env \<Rightarrow> pystr \<Rightarrow> pystr \<Rightarrow> pystr \<Rightarrow> datetime option \<Rightarrow> path prog" where
  "update_activity_file env repo_path' timezone' activity when' w =
     (case pytz_timezone env timezone' of
        None \<Rightarrow> (Inl UnknownTimeZoneError, w)
      | Some tz \<Rightarrow>
          (let now = (case when' of Some d \<Rightarrow> astimezone env d tz | None \<Rightarrow> datetime_now env (ticks w) tz);
               w1 = (case when' of Some d \<Rightarrow> w | None \<Rightarrow> tick w);
               dir_path = [repo_path', pad4 (dt_year now), pad2 (dt_month now)];
               file_path = dir_path @ [pad2 (dt_day now) @ ustr ''.md''];
               header = ustr ''# '' @ strftime_dmy now @ [10, 10] @ activity @ [10];
               upd = [10] @ ustr ''<hr>'' @ [10, 10] @ ustr ''_UPD ('' @ strftime_HM now @ ustr ''):_'' @
                     [10, 10] @ activity @ [10];
               write_header =
                 (case utf8_encode header of
                    Inl e \<Rightarrow> (Inl e, emit (FileWritten file_path) (w1\<lparr>files := (files w1)(file_path \<mapsto> [])\<rparr>))
                  | Inr bs \<Rightarrow>
                      (Inr file_path, emit (FileWritten file_path) (w1\<lparr>files := (files w1)(file_path \<mapsto> bs)\<rparr>)))
           in case files w1 file_path of
                None \<Rightarrow> write_header
              | Some old \<Rightarrow>
                  if length old = 0 then write_header
                  else
                    (case utf8_encode upd of
                       Inl e \<Rightarrow> (Inl e, w1)
                     | Inr bs \<Rightarrow>
                         (Inr file_path,
                          emit (FileAppended file_path) (w1\<lparr>files := (files w1)(file_path \<mapsto> old @ bs)\<rparr>)))))"

subsection \<open>Commit and push\<close>

text \<open>Lines 254 to 268 of \<open>commit_and_push\<close>: the commit, only if something differs.\<close>

definition commit_if_dirty :: "pystr \<Rightarrow> actor \<Rightarrow> pystr option \<Rightarrow> pystr option \<Rightarrow> unit prog" where
  "commit_if_dirty message author_actor author_date committer_date w =
     (if is_dirty w then
        (let c = \<lparr>c_message = message, c_author = author_actor, c_committer = author_actor,
                  c_author_date = (if truthy author_date then author_date else None),
                  c_commit_date = (if truthy committer_date then committer_date else None),
                  c_tree = git_index w\<rparr>
         in (Inr (),
             emit (CommitCreated c)
               (w\<lparr>head_commits := head_commits w @ [c],
                  heads := (case active_branch w of
                              None \<Rightarrow> heads w
                            | Some b \<Rightarrow> (heads w)(b \<mapsto> head_commits w @ [c]))\<rparr>)))
      else (Inr (), log_info MsgNothingToCommit w))"

text \<open>Lines 270 to 285: the push to \<open>origin\<close>; its failure is logged and raised again.\<close>

definition push_origin :: "env \<Rightarrow> pystr \<Rightarrow> unit prog" where
  "push_origin env branch' w =
     (let tracking_branch = (case active_branch w of None \<Rightarrow> None | Some b \<Rightarrow> tracking w b)
      in case (if tracking_branch = None then
                 git env (GitPush (ustr ''origin'') branch' SetUpstream) (log_info MsgNoUpstream w)
               else git env (GitPush (ustr ''origin'') branch' Plain) w) of
           (Inl e, w') \<Rightarrow>
             if e = GitCommandError then (Inl e, log_error MsgPushOriginFailed w') else (Inl e, w')
         | (Inr u, w') \<Rightarrow> (Inr u, w'))"

text \<open>Lines 287 to 294: the push to the secondary remote; its failure is only logged.\<close>

definition push_secondary :: "env \<Rightarrow> pystr \<Rightarrow> pystr option \<Rightarrow> bool \<Rightarrow> unit prog" where
  "push_secondary env branch' secondary_remote_name' force_push_secondary' w =
     (case secondary_remote_name' of
        None \<Rightarrow> (Inr (), w)
      | Some n \<Rightarrow>
          if n \<noteq> [] \<and> remotes w n \<noteq> None then
            (case git env (GitPush n branch' (if force_push_secondary' then Force else Plain)) w of
               (Inl e, w') \<Rightarrow>
                 if e = GitCommandError then (Inr (), log_error (MsgPushFailed n) w') else (Inl e, w')
             | (Inr u, w') \<Rightarrow> (Inr (), w'))
          else (Inr (), w))"

definition commit_and_push ::
    "env \<Rightarrow> settings \<Rightarrow> pystr \<Rightarrow> pystr \<Rightarrow> pystr option \<Rightarrow> bool \<Rightarrow> pystr option \<Rightarrow> pystr option
       \<Rightarrow> unit prog" where
  "commit_and_push env settings branch' message secondary_remote_name' force_push_secondary'
       author_date committer_date =
     bind (ensure_remote_url env (repo_url settings) (ustr ''origin'')) (\<lambda>_.
     bind (case secondary_remote_url settings of
             None \<Rightarrow> ret ()
           | Some u \<Rightarrow>
               if u \<noteq> [] then ensure_remote_url env u (secondary_remote_name settings) else ret ()) (\<lambda>_.
     bind (git env (GitCheckoutB branch' None)) (\<lambda>_.
     bind (ensure_repo_identity env settings) (\<lambda>author_actor.
     bind (git env GitAddAll) (\<lambda>_.
     bind (commit_if_dirty message author_actor author_date committer_date) (\<lambda>_.
     bind (push_origin env branch') (\<lambda>_.
     push_secondary env branch' secondary_remote_name' force_push_secondary')))))))"

subsection \<open>The AI message generator\<close>

definition build_ai_client :: "env \<Rightarrow> settings \<Rightarrow> error + openai_client" where
  "build_ai_client env settings =
     (if \<not> openai_installed env then Inl RuntimeError
      else
        (case openai_api_key settings of
           None \<Rightarrow> Inl RuntimeError
         | Some k \<Rightarrow>
             if k = [] then Inl RuntimeError
             else Inr \<lparr>
               client_api_key = k,
               client_base_url = openai_base_url settings,
               client_default_headers =
                 (if contains (ustr ''openrouter.ai'') (openai_base_url settings) then
                    Some [(ustr ''HTTP-Referer'', ustr ''https://github.com/akarmain/swamp_git''),
                          (ustr ''X-Title'', ustr ''swamp_git automation'')]
                  else None)\<rparr>))"

text \<open>The two messages of the request: the system instruction, and the prompt with the context.\<close>

definition ai_messages :: "pystr option \<Rightarrow> (pystr \<times> pystr) list" where
  "ai_messages context' =
     (let user = AI_PROMPT @
            (case context' of
               None \<Rightarrow> []
             | Some c \<Rightarrow> if c \<noteq> [] then CONTEXT_LABEL @ c @ [10] else [])
      in [(ustr ''system'', AI_SYSTEM), (ustr ''user'', user)])"

definition generate_ai_commit_text :: "env \<Rightarrow> settings \<Rightarrow> pystr option \<Rightarrow> pystr prog" where
  "generate_ai_commit_text env settings context' w =
     (case build_ai_client env settings of
        Inl e \<Rightarrow> (Inl e, w)
      | Inr client \<Rightarrow>
          (let messages = ai_messages context';
               w1 = tick (emit (ChatCompletion (openai_model settings) messages) w)
           in case chat_completions_create env (ticks w) client (openai_model settings) messages of
                Inl e \<Rightarrow> (Inl e, w1)
              | Inr choices \<Rightarrow>
                  (case choices of
                     [] \<Rightarrow> (Inl IndexError, w1)
                   | first # _ \<Rightarrow>
                       (case first of
                          None \<Rightarrow> (Inl AttributeError, w1)
                        | Some content \<Rightarrow>
                            (let text' = strip content in (Inr (rstrip (take 220 text')), w1))))))"

subsection \<open>Dates for backdating\<close>

definition compute_backdated_when :: "env \<Rightarrow> pystr \<Rightarrow> pystr option \<Rightarrow> int \<Rightarrow> datetime prog" where
  "compute_backdated_when env timezone' scheme index w =
     (case pytz_timezone env timezone' of
        None \<Rightarrow> (Inl UnknownTimeZoneError, w)
      | Some tz \<Rightarrow>
          (let base = datetime_now env (ticks w) tz;
               w1 = tick w;
               delta =
                 (if scheme = Some (ustr ''hourly'') then relativedelta_new index 0 0
                  else if scheme = Some (ustr ''daily'') then relativedelta_new 0 index 0
                  else if scheme = Some (ustr ''weekly'') then relativedelta_new 0 0 index
                  else relativedelta_new 0 0 0)
           in case datetime_sub base delta of
                Inl e \<Rightarrow> (Inl e, w1)
              | Inr when' \<Rightarrow> (Inr (replace_noon when'), w1)))"

subsection \<open>Operations\<close>

definition secondary_of :: "settings \<Rightarrow> pystr option" where
  "secondary_of settings =
     (if truthy (secondary_remote_url settings) then Some (secondary_remote_name settings) else None)"

definition op_push :: "env \<Rightarrow> settings \<Rightarrow> pystr \<Rightarrow> unit prog" where
  "op_push env settings text' =
     bind (ensure_repo env (repo_path settings) (repo_url settings)) (\<lambda>_.
     bind (sync_with_origin env (branch settings)) (\<lambda>_.
     bind (update_activity_file env (repo_path settings) (timezone settings) text' None) (\<lambda>file_path w.
       (let w1 = log_info (MsgFileUpdated file_path) w;
            msg = ustr ''Update activities for '' @ date_today_isoformat env (ticks w1) @ EM_DASH @
                  take 6 (uuid4_hex env (Suc (ticks w1)));
            w2 = tick (tick w1)
        in commit_and_push env settings (branch settings) msg (secondary_of settings)
             (force_push_secondary settings) None None w2))))"

text \<open>\<open>range(count)\<close>: empty when \<open>count\<close> is 0 or negative.\<close>

definition py_range :: "int \<Rightarrow> int list" where
  "py_range n = map int [0..<nat n]"

text \<open>The body of the loop of \<open>op_gpt_push\<close>, for the index \<open>i\<close>.\<close>

definition gpt_push_body ::
    "env \<Rightarrow> settings \<Rightarrow> int \<Rightarrow> int \<Rightarrow> pystr option \<Rightarrow> pystr option \<Rightarrow> datetime \<Rightarrow> int \<Rightarrow> unit prog" where
  "gpt_push_body env settings count delay_sec context' backdate base i =
     bind (if \<not> truthy backdate then ret base
           else compute_backdated_when env (timezone settings) backdate i) (\<lambda>when'.
     bind (generate_ai_commit_text env settings context') (\<lambda>text_commit.
     bind (update_activity_file env (repo_path settings) (timezone settings) text_commit (Some when'))
       (\<lambda>file_path w.
          (let w1 = log_info (MsgFileUpdatedN (i + 1) count file_path) w;
               iso = strftime_iso when';
               msg = ustr ''Update activities for '' @ date_isoformat when'
           in bind (commit_and_push env settings (branch settings) msg (secondary_of settings)
                      (force_push_secondary settings) (Some iso) (Some iso))
                (\<lambda>_ w2. (Inr (), if i < count - 1 \<and> delay_sec > 0 then emit (Slept delay_sec) w2 else w2))
                w1))))"

fun gpt_push_loop ::
    "env \<Rightarrow> settings \<Rightarrow> int \<Rightarrow> int \<Rightarrow> pystr option \<Rightarrow> pystr option \<Rightarrow> datetime \<Rightarrow> int list \<Rightarrow> unit prog" where
  "gpt_push_loop env settings count delay_sec context' backdate base [] w = (Inr (), w)"
| "gpt_push_loop env settings count delay_sec context' backdate base (i # rest) w =
     (case gpt_push_body env settings count delay_sec context' backdate base i w of
        (Inl e, w') \<Rightarrow> (Inl e, w')
      | (Inr u, w') \<Rightarrow> gpt_push_loop env settings count delay_sec context' backdate base rest w')"

definition op_gpt_push ::
    "env \<Rightarrow> settings \<Rightarrow> int \<Rightarrow> int \<Rightarrow> pystr option \<Rightarrow> pystr option \<Rightarrow> unit prog" where
  "op_gpt_push env settings count delay_sec context' backdate =
     bind (ensure_repo env (repo_path settings) (repo_url settings)) (\<lambda>_.
     bind (sync_with_origin env (branch settings)) (\<lambda>_ w.
       (case pytz_timezone env (timezone settings) of
          None \<Rightarrow> (Inl UnknownTimeZoneError, w)
        | Some tz \<Rightarrow>
            (let base = replace_noon (datetime_now env (ticks w) tz)
             in gpt_push_loop env settings count delay_sec context' backdate base (py_range count)
                  (tick w)))))"

text \<open>The body of the loop of \<open>fill_missing_days\<close>, for the date \<open>d\<close>.\<close>

definition fill_missing_body :: "env \<Rightarrow> settings \<Rightarrow> tzone \<Rightarrow> pystr \<Rightarrow> unit prog" where
  "fill_missing_body env settings tz d =
     (case strptime_ymd env d of
        None \<Rightarrow> (\<lambda>w. (Inl ValueError, w))
      | Some parsed \<Rightarrow>
          (let when' = localize env tz (replace_noon parsed)
           in bind (generate_ai_commit_text env settings (Some (DAY_LABEL @ d @ FOR_QR_IN))) (\<lambda>text_commit.
              bind (update_activity_file env (repo_path settings) (timezone settings) text_commit (Some when'))
                (\<lambda>file_path w.
                   (let w1 = log_info (MsgDateFileUpdated d file_path) w;
                        iso = strftime_iso when';
                        msg = ustr ''Update activities for '' @ date_isoformat when'
                    in commit_and_push env settings (branch settings) msg (secondary_of settings)
                         (force_push_secondary settings) (Some iso) (Some iso) w1)))))"

fun fill_missing_loop :: "env \<Rightarrow> settings \<Rightarrow> tzone \<Rightarrow> pystr list \<Rightarrow> unit prog" where
  "fill_missing_loop env settings tz [] w = (Inr (), w)"
| "fill_missing_loop env settings tz (d # rest) w =
     (case fill_missing_body env settings tz d w of
        (Inl e, w') \<Rightarrow> (Inl e, w')
      | (Inr u, w') \<Rightarrow> fill_missing_loop env settings tz rest w')"

definition fill_missing_days :: "env \<Rightarrow> settings \<Rightarrow> pystr list \<Rightarrow> unit prog" where
  "fill_missing_days env settings missing_dates w =
     (case pytz_timezone env (timezone settings) of
        None \<Rightarrow> (Inl UnknownTimeZoneError, w)
      | Some tz \<Rightarrow>
          bind (ensure_repo env (repo_path settings) (repo_url settings)) (\<lambda>_.
          bind (sync_with_origin env (branch settings)) (\<lambda>_.
          fill_missing_loop env settings tz missing_dates)) w)"

subsection \<open>The command line\<close>

text \<open>
  What \<open>parse_args\<close> hands to \<open>main\<close>: the optional \<open>--repo-url\<close> and the subcommand
  with its own arguments.
\<close>

datatype command =
    CmdPush pystr
  | CmdGptPush int int "pystr option" "pystr option"
  | CmdFillMissing pystr
  | CmdOther

record args =
  args_repo_url :: "pystr option"
  args_cmd :: command

text \<open>
  Lines 467 to 471 of \<open>main\<close>: without a readable \<open>user.name\<close> in the clone directory,
  a global identity is configured.
\<close>

definition startup_identity :: "env \<Rightarrow> world \<Rightarrow> world" where
  "startup_identity env w =
     (let t = ticks w;
          w1 = tick (emit (Git GitInit) w);
          w2 = git_effect env t GitInit w1;
          fallback = (\<lambda>v.
            (emit (OsSystemGitConfigGlobal (ustr ''user.email'') (ustr ''swamp_git@example.local''))
              (emit (OsSystemGitConfigGlobal (ustr ''user.name'') (ustr ''swamp_git'')) v))
            \<lparr>global_user_name := Some (ustr ''swamp_git''),
             global_user_email := Some (ustr ''swamp_git@example.local'')\<rparr>)
      in if git_fails env t GitInit then fallback w1
         else if config_reader_fails env (ticks w2) \<or> cfg_user_name w2 = None then fallback (tick w2)
         else tick w2)"

text \<open>Line 484: \<open>[d.strip() for d in args.dates.split(",") if d.strip()]\<close>\<close>

definition split_dates :: "pystr \<Rightarrow> pystr list" where
  "split_dates dates = map strip (filter (\<lambda>d. strip d \<noteq> []) (py_split 44 dates))"

definition main :: "env \<Rightarrow> pystr \<Rightarrow> args \<Rightarrow> unit prog" where
  "main env DEFAULT_REPO_PATH args w =
     (case load_settings env DEFAULT_REPO_PATH (args_repo_url args) of
        Inl e \<Rightarrow> (Inl e, w)
      | Inr settings \<Rightarrow>
          (let w1 = startup_identity env w
           in case args_cmd args of
                CmdPush text' \<Rightarrow> op_push env settings text' w1
              | CmdGptPush count delay_sec context' backdate \<Rightarrow>
                  op_gpt_push env settings count delay_sec context' backdate w1
              | CmdFillMissing dates \<Rightarrow> fill_missing_days env settings (split_dates dates) w1
              | CmdOther \<Rightarrow> (Inl SystemExit, w1)))"

section \<open>The contribution calendar script\<close>

text \<open>
  \<open>get_gata.py\<close>: the entries of \<open>data["contributions"]\<close> carry a date and a count; the
  loop appends the dates of the entries whose count is 0, and the script prints a headline
  and the list.
\<close>

record contribution =
  date :: pystr
  count :: int

definition HEADLINE :: pystr where
  "HEADLINE =
     [1044, 1085, 1080, 32, 1075, 1076, 1077, 32, 1085, 1077, 32, 1073, 1099, 1083, 1086, 32, 99,
     111, 110, 116, 114, 105, 98, 117, 116, 105, 111, 110, 115, 58]"

fun zero_days_loop :: "contribution list \<Rightarrow> pystr list \<Rightarrow> pystr list" where
  "zero_days_loop [] zero_days = zero_days"
| "zero_days_loop (day # rest) zero_days =
     zero_days_loop rest (if count day = 0 then zero_days @ [date day] else zero_days)"

datatype printed = PrintStr pystr | PrintList "pystr list"

definition get_gata :: "error + contribution list \<Rightarrow> (error + unit) \<times> printed list" where
  "get_gata response =
     (case response of
        Inl e \<Rightarrow> (Inl e, [])
      | Inr contributions \<Rightarrow>
          (Inr (), [PrintStr HEADLINE, PrintList (zero_days_loop contributions [])]))"

section \<open>Concrete inputs\<close>

text \<open>
  A small world on which the theorems are exercised: one known time zone, a clock that
  reads 2025-11-04 09:30:15.000123 (+01:00), tools that succeed, and an endpoint that
  answers with one choice.
\<close>

definition example_tzinfo :: tzinfo where
  "example_tzinfo = \<lparr>tz_zone = TZone (ustr ''Europe/Amsterdam''), tz_utcoffset = 60\<rparr>"

definition example_now :: datetime where
  "example_now =
     \<lparr>dt_year = 2025, dt_month = 11, dt_day = 4, dt_hour = 9, dt_minute = 30, dt_second = 15,
      dt_microsecond = 123, dt_tzinfo = Some example_tzinfo\<rparr>"

definition example_env :: env where
  "example_env =
     \<lparr>getenv = (\<lambda>k. None),
      pytz_timezone = (\<lambda>n. if n = ustr ''Europe/Amsterdam'' then Some (TZone n) else None),
      datetime_now = (\<lambda>t tz. example_now),
      astimezone = (\<lambda>d tz. d),
      localize = (\<lambda>tz d. d\<lparr>dt_tzinfo := Some example_tzinfo\<rparr>),
      strptime_ymd = (\<lambda>s. None),
      date_today_isoformat = (\<lambda>t. ustr ''2025-11-04''),
      uuid4_hex = (\<lambda>t. ustr ''0f1e2d3c4b5a69788796a5b4c3d2e1f0''),
      git_fails = (\<lambda>t c. False),
      ls_remote_output = (\<lambda>t b. []),
      resolve_ref = (\<lambda>t r. None),
      origin_default_branch = (\<lambda>t. ustr ''main''),
      config_reader_fails = (\<lambda>t. False),
      config_writer_fails = (\<lambda>t. False),
      openai_installed = True,
      chat_completions_create = (\<lambda>t c m ms. Inr [Some (ustr ''  feat: QR export  '')])\<rparr>"

definition example_settings :: settings where
  "example_settings =
     \<lparr>repo_url = ustr ''git@github.com:USER/REPO.git'',
      repo_path = ustr ''/cache/swamp_git'',
      branch = ustr ''main'',
      secondary_remote_name = ustr ''gitlab'',
      secondary_remote_url = None,
      force_push_secondary = True,
      timezone = ustr ''Europe/Amsterdam'',
      author_name = [],
      author_email = [],
      openai_api_key = None,
      openai_base_url = ustr ''https://api.proxyapi.ru/deepseek/'',
      openai_model = ustr ''deepseek-chat''\<rparr>"

definition example_world :: world where
  "example_world =
     \<lparr>path_exists = True, repo_valid = True, files = Map.empty, git_index = Map.empty,
      head_commits = [], active_branch = Some (ustr ''main''), heads = Map.empty,
      remotes = Map.empty, tracking = Map.empty,
      local_user_name = None, local_user_email = None,
      global_user_name = None, global_user_email = None,
      trace = [], ticks = 0\<rparr>"

section \<open>Notions the claims are stated with\<close>

text \<open>The events a run adds to the trace.\<close>

definition new_events :: "world \<Rightarrow> world \<Rightarrow> event list" where
  "new_events w w' = drop (length (trace w)) (trace w')"

definition is_staging_event :: "event \<Rightarrow> bool" where
  "is_staging_event e = (e = Git GitAddAll)"

definition is_commit_event :: "event \<Rightarrow> bool" where
  "is_commit_event e = (case e of CommitCreated c \<Rightarrow> True | _ \<Rightarrow> False)"

definition is_push_event :: "event \<Rightarrow> bool" where
  "is_push_event e = (case e of Git (GitPush r b m) \<Rightarrow> True | _ \<Rightarrow> False)"

definition is_ai_event :: "event \<Rightarrow> bool" where
  "is_ai_event e = (case e of ChatCompletion m ms \<Rightarrow> True | _ \<Rightarrow> False)"

definition is_file_write_event :: "event \<Rightarrow> bool" where
  "is_file_write_event e = (case e of FileWritten p \<Rightarrow> True | FileAppended p \<Rightarrow> True | _ \<Rightarrow> False)"

text \<open>An event that neither stages, commits, pushes, calls the AI nor writes an activity file.\<close>

definition quiet :: "event \<Rightarrow> bool" where
  "quiet e \<longleftrightarrow>
     \<not> is_staging_event e \<and> \<not> is_commit_event e \<and> \<not> is_push_event e \<and> \<not> is_ai_event e \<and>
     \<not> is_file_write_event e"

text \<open>
  A run from \<open>w\<close> to \<open>w'\<close> that only adds quiet events and creates no commit: the history
  of HEAD may move (a clone, a reset), but no commit is made.
\<close>

definition quiet_run :: "world \<Rightarrow> world \<Rightarrow> bool" where
  "quiet_run w w' \<longleftrightarrow> (\<exists>evs. trace w' = trace w @ evs \<and> list_all quiet evs)"

text \<open>
  A run that, besides being quiet, leaves the working tree, the index, the history and the
  configured identity as they were: what happens in \<open>commit_and_push\<close> before staging.
\<close>

definition untouched :: "world \<Rightarrow> world \<Rightarrow> bool" where
  "untouched w w' \<longleftrightarrow>
     files w' = files w \<and> git_index w' = git_index w \<and> head_commits w' = head_commits w \<and>
     global_user_name w' = global_user_name w \<and> global_user_email w' = global_user_email w \<and>
     tracking w' = tracking w \<and> path_exists w' = path_exists w \<and> repo_valid w' = repo_valid w"

text \<open>
  The identity as the specification words it: each field from the settings, and when it is
  empty there from the configuration of the repository (when that can be read).
\<close>

definition spec_identity :: "bool \<Rightarrow> settings \<Rightarrow> world \<Rightarrow> pystr \<times> pystr" where
  "spec_identity readable settings w =
     (let from_config = (\<lambda>v. if readable then (case v of None \<Rightarrow> [] | Some x \<Rightarrow> x) else [])
      in (if author_name settings \<noteq> [] then author_name settings else from_config (cfg_user_name w),
          if author_email settings \<noteq> [] then author_email settings else from_config (cfg_user_email w)))"

text \<open>
  The same, with the identity configured in the clone kept too: what
  \<open>commit_and_push\<close> does before it resolves the identity.
\<close>

definition prestage :: "world \<Rightarrow> world \<Rightarrow> bool" where
  "prestage w w' \<longleftrightarrow> untouched w w' \<and> quiet_run w w' \<and> local_user_name w' = local_user_name w
     \<and> local_user_email w' = local_user_email w"

text \<open>
  The remotes after the two calls of \<open>ensure_remote_url\<close> in \<open>commit_and_push\<close>, when
  both succeed.
\<close>

definition remotes_ensured :: "settings \<Rightarrow> world \<Rightarrow> pystr \<rightharpoonup> pystr" where
  "remotes_ensured settings w =
     (case secondary_remote_url settings of
        None \<Rightarrow> (remotes w)(ustr ''origin'' \<mapsto> repo_url settings)
      | Some u \<Rightarrow>
          if u \<noteq> [] then (remotes w)(ustr ''origin'' \<mapsto> repo_url settings, secondary_remote_name settings \<mapsto> u)
          else (remotes w)(ustr ''origin'' \<mapsto> repo_url settings))"


section \<open>The calendar: the two conversions are inverse\<close>

lemma month_day_ok:
  assumes "0 \<le> r" "r < 365" "month_day leap r = (m, d)"
  shows "1 \<le> m \<and> m \<le> 12 \<and> 1 \<le> d \<and> d \<le> (if m = 2 \<and> leap then 29 else DAYS_IN_MONTH ! nat m) \<and>
         DAYS_BEFORE_MONTH ! nat m + (if m > 2 \<and> leap then 1 else 0) + d = r + 1"
proof -
  define m0 where "m0 = (r + 50) div 32"
  have b: "32 * m0 \<le> r + 50" "r + 50 < 32 * m0 + 32"
    unfolding m0_def by simp_all
  with assms(1,2) have "1 \<le> m0" "m0 \<le> 12" by linarith+
  then have "m0 = 1 \<or> m0 = 2 \<or> m0 = 3 \<or> m0 = 4 \<or> m0 = 5 \<or> m0 = 6 \<or> m0 = 7 \<or> m0 = 8
     \<or> m0 = 9 \<or> m0 = 10 \<or> m0 = 11 \<or> m0 = 12"
    by arith
  then show ?thesis
    using b assms
    by (elim disjE)
       (auto simp: month_day_def Let_def m0_def[symmetric] DAYS_BEFORE_MONTH_def DAYS_IN_MONTH_def 
           split: if_splits)
qed

lemma div_pred: 
  fixes y k :: int assumes "0 < k"
  shows "(y - 1) div k = (if y mod k = 0 then y div k - 1 else y div k)"
proof (cases "y mod k = 0")
  case True
  have "k * (y div k) + y mod k = y" by (rule mult_div_mod_eq)
  with True have "y - 1 = k * (y div k - 1) + (k - 1)"
    by (simp add: algebra_simps)
  then have "(y - 1) div k = y div k - 1"
    using assms by (intro int_div_pos_eq[where r="k - 1"]) auto
  with True show ?thesis by simp
next
  case False
  have "0 \<le> y mod k" "y mod k < k" using assms by simp_all
  with False have r: "0 < y mod k" "y mod k < k" by simp_all
  have "y - 1 = k * (y div k) + (y mod k - 1)" by simp
  then have "(y - 1) div k = y div k"
    using r by (intro int_div_pos_eq[where r="y mod k - 1"]) auto
  with False show ?thesis by simp
qed

lemma dby_expand:
  assumes "0 \<le> b" "b \<le> 3" "0 \<le> c" "c \<le> 24" "0 \<le> d" "d \<le> 3"
  shows "days_before_year (400 * a + 100 * b + 4 * c + d + 1) = 146097 * a + 36524 * b + 1461 * c + 365 * d"
proof -
  let ?p = "400 * a + 100 * b + 4 * c + d"
  have 1: "?p div 4 = 100 * a + 25 * b + c"
    using assms by (intro int_div_pos_eq[where r=d]) auto
  have 2: "?p div 100 = 4 * a + b"
    using assms by (intro int_div_pos_eq[where r="4 * c + d"]) auto
  have 3: "?p div 400 = a"
    using assms by (intro int_div_pos_eq[where r="100 * b + 4 * c + d"]) auto
  show ?thesis
    unfolding days_before_year_def Let_def using 1 2 3 by simp
qed

lemma is_leap_expand:
  assumes "0 \<le> b" "b \<le> 3" "0 \<le> c" "c \<le> 24" "0 \<le> d" "d \<le> 3"
  shows "is_leap (400 * a + 100 * b + 4 * c + d + 1) \<longleftrightarrow> d = 3 \<and> (c \<noteq> 24 \<or> b = 3)"
proof -
  let ?y = "400 * a + 100 * b + 4 * c + d + 1"
  show ?thesis
  proof (cases "d = 3")
    case False
    have "?y mod 4 = d + 1"
      using assms False by (intro int_mod_pos_eq[where q="100 * a + 25 * b + c"]) auto
    with assms False show ?thesis by (simp add: is_leap_def)
  next
    case d3: True
    have m4: "?y mod 4 = 0"
      using d3 by (intro int_mod_pos_eq[where q="100 * a + 25 * b + c + 1"]) auto
    show ?thesis
    proof (cases "c = 24")
      case False
      have "?y mod 100 = 4 * c + 4"
        using assms d3 False by (intro int_mod_pos_eq[where q="4 * a + b"]) auto
      with assms d3 False m4 show ?thesis by (simp add: is_leap_def)
    next
      case c24: True
      have m100: "?y mod 100 = 0"
        using d3 c24 by (intro int_mod_pos_eq[where q="4 * a + b + 1"]) auto
      show ?thesis
      proof (cases "b = 3")
        case True
        have "?y mod 400 = 0"
          using d3 c24 True by (intro int_mod_pos_eq[where q="a + 1"]) auto
        with d3 c24 True m4 m100 show ?thesis by (simp add: is_leap_def)
      next
        case False
        have "?y mod 400 = 100 * b + 100"
          using assms d3 c24 False by (intro int_mod_pos_eq[where q="a"]) auto
        with assms d3 c24 False m4 m100 show ?thesis by (simp add: is_leap_def)
      qed
    qed
  qed
qed

lemma ord2ymd_decode:
  obtains a b c d r where
    "n - 1 = 146097 * a + 36524 * b + 1461 * c + 365 * d + r"
    "0 \<le> b" "b \<le> 4" "0 \<le> c" "c \<le> 24" "0 \<le> d" "d \<le> 4" "0 \<le> r" "r < 365"
    "b = 4 \<longrightarrow> c = 0 \<and> d = 0 \<and> r = 0" "d = 4 \<longrightarrow> r = 0 \<and> c \<le> 23"
    "ord2ymd n = (if d = 4 \<or> b = 4 then (400 * a + 100 * b + 4 * c + d, 12, 31)
                  else (case month_day (d = 3 \<and> (c \<noteq> 24 \<or> b = 3)) r of
                          (m, dd) \<Rightarrow> (400 * a + 100 * b + 4 * c + d + 1, m, dd)))"
proof -
  define n0 where "n0 = n - 1"
  define a where "a = n0 div 146097"
  define r400 where "r400 = n0 mod 146097"
  define b where "b = r400 div 36524"
  define r100 where "r100 = r400 mod 36524"
  define c where "c = r100 div 1461"
  define r4 where "r4 = r100 mod 1461"
  define d where "d = r4 div 365"
  define r where "r = r4 mod 365"
  have e1: "n0 = 146097 * a + r400" "0 \<le> r400" "r400 < 146097"
    unfolding a_def r400_def by simp_all
  have e2: "r400 = 36524 * b + r100" "0 \<le> r100" "r100 < 36524"
    unfolding b_def r100_def by simp_all
  have e3: "r100 = 1461 * c + r4" "0 \<le> r4" "r4 < 1461"
    unfolding c_def r4_def by simp_all
  have e4: "r4 = 365 * d + r" "0 \<le> r" "r < 365"
    unfolding d_def r_def by simp_all
  have bb: "0 \<le> b" "b \<le> 4" using e1 e2 by linarith+
  have cb: "0 \<le> c" "c \<le> 24" using e2 e3 by linarith+
  have db: "0 \<le> d" "d \<le> 4" using e3 e4 by linarith+
  have b4: "b = 4 \<longrightarrow> c = 0 \<and> d = 0 \<and> r = 0" using e1 e2 e3 e4 cb db by auto
  have d4: "d = 4 \<longrightarrow> r = 0 \<and> c \<le> 23" using e2 e3 e4 cb by auto
  have eq: "n - 1 = 146097 * a + 36524 * b + 1461 * c + 365 * d + r"
    using e1 e2 e3 e4 by (simp add: n0_def)
  have "ord2ymd n = (if d = 4 \<or> b = 4 then (400 * a + 100 * b + 4 * c + d, 12, 31)
                  else (case month_day (d = 3 \<and> (c \<noteq> 24 \<or> b = 3)) r of
                          (m, dd) \<Rightarrow> (400 * a + 100 * b + 4 * c + d + 1, m, dd)))"
    unfolding ord2ymd_def Let_def n0_def[symmetric] a_def[symmetric] r400_def[symmetric]
      b_def[symmetric] r100_def[symmetric] c_def[symmetric] r4_def[symmetric] d_def[symmetric]
      r_def[symmetric]
    by (simp add: algebra_simps)
  with eq bb cb db e4 b4 d4 show ?thesis using that by blast
qed

lemma dby_at:
  assumes "y = 400 * a + 100 * b + 4 * c + d + 1" "0 \<le> b" "b \<le> 3" "0 \<le> c" "c \<le> 24" "0 \<le> d" "d \<le> 3"
  shows "days_before_year y = 146097 * a + 36524 * b + 1461 * c + 365 * d"
  unfolding assms(1) using assms(2-) by (rule dby_expand)

lemma is_leap_at:
  assumes "y = 400 * a + 100 * b + 4 * c + d + 1" "0 \<le> b" "b \<le> 3" "0 \<le> c" "c \<le> 24" "0 \<le> d" "d \<le> 3"
  shows "is_leap y \<longleftrightarrow> d = 3 \<and> (c \<noteq> 24 \<or> b = 3)"
  unfolding assms(1) using assms(2-) by (rule is_leap_expand)

lemma december_31:
  assumes "is_leap y" "days_before_year y + 366 = n"
  shows "ymd2ord y 12 31 = n \<and> (1::int) \<le> 12 \<and> (12::int) \<le> 12 \<and> (1::int) \<le> 31 \<and> 31 \<le> days_in_month y 12"
  using assms unfolding ymd2ord_def days_before_month_def days_in_month_def
  by (simp add: DAYS_BEFORE_MONTH_def DAYS_IN_MONTH_def)

lemma ord2ymd_sound:
  assumes "ord2ymd n = (y, m, dd)"
  shows "ymd2ord y m dd = n \<and> 1 \<le> m \<and> m \<le> 12 \<and> 1 \<le> dd \<and> dd \<le> days_in_month y m"
proof -
  obtain a b c d r where
    eq: "n - 1 = 146097 * a + 36524 * b + 1461 * c + 365 * d + r"
    and bd: "0 \<le> b" "b \<le> 4" "0 \<le> c" "c \<le> 24" "0 \<le> d" "d \<le> 4" "0 \<le> r" "r < 365"
    and b4: "b = 4 \<longrightarrow> c = 0 \<and> d = 0 \<and> r = 0" and d4: "d = 4 \<longrightarrow> r = 0 \<and> c \<le> 23"
    and o: "ord2ymd n = (if d = 4 \<or> b = 4 then (400 * a + 100 * b + 4 * c + d, 12, 31)
                  else (case month_day (d = 3 \<and> (c \<noteq> 24 \<or> b = 3)) r of
                          (m, dd) \<Rightarrow> (400 * a + 100 * b + 4 * c + d + 1, m, dd)))"
    by (rule ord2ymd_decode)
  show ?thesis
  proof (cases "b = 4")
    case True
    with b4 have z: "c = 0" "d = 0" "r = 0" by simp_all
    from o True z assms have y: "y = 400 * a + 100 * 3 + 4 * 24 + 3 + 1" and md: "m = 12" "dd = 31"
      by simp_all
    have dby: "days_before_year y = 146097 * a + 36524 * 3 + 1461 * 24 + 365 * 3"
      using y by (rule dby_at) simp_all
    have lp: "is_leap y"
      using is_leap_at[OF y] by simp
    have "days_before_year y + 366 = n" using dby eq True z by simp
    with lp show ?thesis unfolding md by (rule december_31)
  next
    case nb4: False
    with bd have b3: "b \<le> 3" by simp
    show ?thesis
    proof (cases "d = 4")
      case True
      with d4 have z: "r = 0" "c \<le> 23" by simp_all
      from o True assms have y: "y = 400 * a + 100 * b + 4 * c + 3 + 1" and md: "m = 12" "dd = 31"
        by simp_all
      have dby: "days_before_year y = 146097 * a + 36524 * b + 1461 * c + 365 * 3"
        using y bd b3 by (intro dby_at) simp_all
      have lp: "is_leap y"
        using is_leap_at[OF y] bd b3 z by simp
      have "days_before_year y + 366 = n" using dby eq True z by simp
      with lp show ?thesis unfolding md by (rule december_31)
    next
      case False
      with bd have d3: "d \<le> 3" by simp
      define lp where "lp \<longleftrightarrow> d = 3 \<and> (c \<noteq> 24 \<or> b = 3)"
      from o False nb4 assms have md: "month_day lp r = (m, dd)" and y: "y = 400 * a + 100 * b + 4 * c + d + 1"
        by (auto simp: lp_def split: prod.splits)
      have dby: "days_before_year y = 146097 * a + 36524 * b + 1461 * c + 365 * d"
        using y bd b3 d3 by (intro dby_at) simp_all
      have il: "is_leap y = lp"
        unfolding lp_def using y bd b3 d3 by (intro is_leap_at) simp_all
      from month_day_ok[OF bd(7) bd(8) md]
      show ?thesis
        using dby il eq
        unfolding ymd2ord_def days_before_month_def days_in_month_def
        by simp
    qed
  qed
qed

lemma mod100_4: "(y::int) mod 100 = 0 \<Longrightarrow> y mod 4 = 0"
proof -
  assume a: "y mod 100 = 0"
  have "y mod 100 mod 4 = y mod 4" by (rule mod_mod_cancel) simp
  with a show ?thesis by simp
qed

lemma mod400_100: "(y::int) mod 400 = 0 \<Longrightarrow> y mod 100 = 0"
proof -
  assume a: "y mod 400 = 0"
  have "y mod 400 mod 100 = y mod 100" by (rule mod_mod_cancel) simp
  with a show ?thesis by simp
qed

lemma dby_Suc: "days_before_year (y + 1) = days_before_year y + 365 + (if is_leap y then 1 else 0)"
proof -
  have d: "(y - 1) div 4 = (if y mod 4 = 0 then y div 4 - 1 else y div 4)"
       "(y - 1) div 100 = (if y mod 100 = 0 then y div 100 - 1 else y div 100)"
       "(y - 1) div 400 = (if y mod 400 = 0 then y div 400 - 1 else y div 400)"
    by (simp_all add: div_pred)
  have e: "days_before_year (y + 1) - days_before_year y
       = 365 + (y div 4 - (y - 1) div 4) - (y div 100 - (y - 1) div 100) + (y div 400 - (y - 1) div 400)"
    by (simp add: days_before_year_def Let_def)
  have "days_before_year (y + 1) - days_before_year y = 365 + (if is_leap y then 1 else 0)"
  proof (cases "y mod 4 = 0")
    case False
    with mod100_4[of y] mod400_100[of y] have "y mod 100 \<noteq> 0" "y mod 400 \<noteq> 0" by auto
    with False show ?thesis unfolding e d by (simp add: is_leap_def)
  next
    case m4: True
    show ?thesis
    proof (cases "y mod 100 = 0")
      case False
      with mod400_100[of y] have "y mod 400 \<noteq> 0" by auto
      with m4 False show ?thesis unfolding e d by (simp add: is_leap_def)
    next
      case m100: True
      show ?thesis
      proof (cases "y mod 400 = 0")
        case False
        with m4 m100 show ?thesis unfolding e d by (simp add: is_leap_def)
      next
        case True
        with m4 m100 show ?thesis unfolding e d by (simp add: is_leap_def)
      qed
    qed
  qed
  then show ?thesis by simp
qed

lemma dby_mono: "y \<le> y' \<Longrightarrow> days_before_year y \<le> days_before_year y'"
proof (induction y' rule: int_ge_induct)
  case base
  show ?case by simp
next
  case (step i)
  then show ?case using dby_Suc[of i] by (simp split: if_splits)
qed

lemma month_cases:
  assumes "1 \<le> m" "m \<le> 12"
  shows "m = 1 \<or> m = 2 \<or> m = 3 \<or> m = 4 \<or> m = 5 \<or> m = 6 \<or> m = 7 \<or> m = 8
     \<or> m = 9 \<or> m = 10 \<or> m = 11 \<or> m = (12::int)"
  using assms by arith

lemma dbm_step:
  assumes "1 \<le> m" "m \<le> 11"
  shows "days_before_month y m + days_in_month y m = days_before_month y (m + 1)"
proof -
  from assms have "1 \<le> m" "m \<le> 12" by simp_all
  from month_cases[OF this] assms(2) show ?thesis
    by (elim disjE)
       (simp_all add: days_before_month_def days_in_month_def DAYS_BEFORE_MONTH_def DAYS_IN_MONTH_def)
qed

lemma dim_pos:
  assumes "1 \<le> m" "m \<le> 12"
  shows "28 \<le> days_in_month y m"
  using month_cases[OF assms]
  by (elim disjE) (simp_all add: days_in_month_def DAYS_IN_MONTH_def)

lemma dbm_mono: "m \<le> m' \<Longrightarrow> 1 \<le> m \<Longrightarrow> m' \<le> 12 \<Longrightarrow> days_before_month y m \<le> days_before_month y m'"
proof (induction m' rule: int_ge_induct)
  case base
  show ?case by simp
next
  case (step i)
  then have "days_before_month y m \<le> days_before_month y i" by simp
  moreover have "days_before_month y i + days_in_month y i = days_before_month y (i + 1)"
    using step by (intro dbm_step) simp_all
  moreover have "28 \<le> days_in_month y i" using step by (intro dim_pos) simp_all
  ultimately show ?case by simp
qed

lemma dbm_next:
  assumes "1 \<le> m" "m < m'" "m' \<le> 12"
  shows "days_before_month y m + days_in_month y m \<le> days_before_month y m'"
proof -
  have "days_before_month y m + days_in_month y m = days_before_month y (m + 1)"
    using assms by (intro dbm_step) simp_all
  moreover have "days_before_month y (m + 1) \<le> days_before_month y m'"
    using assms by (intro dbm_mono) simp_all
  ultimately show ?thesis by simp
qed

lemma dbm_year:
  assumes "1 \<le> m" "m \<le> 12"
  shows "0 \<le> days_before_month y m
       \<and> days_before_month y m + days_in_month y m \<le> 365 + (if is_leap y then 1 else 0)"
  using month_cases[OF assms]
  by (elim disjE)
     (simp_all add: days_before_month_def days_in_month_def DAYS_BEFORE_MONTH_def DAYS_IN_MONTH_def)

lemma ymd2ord_inj:
  assumes v: "1 \<le> m" "m \<le> 12" "1 \<le> d" "d \<le> days_in_month y m"
    and v': "1 \<le> m'" "m' \<le> 12" "1 \<le> d'" "d' \<le> days_in_month y' m'"
    and eq: "ymd2ord y m d = ymd2ord y' m' d'"
  shows "y = y' \<and> m = m' \<and> d = d'"
proof -
  have r: "days_before_year y < ymd2ord y m d" "ymd2ord y m d \<le> days_before_year (y + 1)"
    using dbm_year[OF v(1,2), of y] v(3,4) dby_Suc[of y] by (simp_all add: ymd2ord_def)
  have r': "days_before_year y' < ymd2ord y' m' d'" "ymd2ord y' m' d' \<le> days_before_year (y' + 1)"
    using dbm_year[OF v'(1,2), of y'] v'(3,4) dby_Suc[of y'] by (simp_all add: ymd2ord_def)
  have y: "y = y'"
  proof (rule ccontr)
    assume "y \<noteq> y'"
    then consider "y + 1 \<le> y'" | "y' + 1 \<le> y" by linarith
    then show False
    proof cases
      case 1
      from dby_mono[OF 1] r r' eq show False by simp
    next
      case 2
      from dby_mono[OF 2] r r' eq show False by simp
    qed
  qed
  from eq y have e: "days_before_month y m + d = days_before_month y m' + d'"
    by (simp add: ymd2ord_def)
  have m: "m = m'"
  proof (rule ccontr)
    assume "m \<noteq> m'"
    then consider "m < m'" | "m' < m" by linarith
    then show False
    proof cases
      case 1
      from dbm_next[OF v(1) 1 v'(2), of y] e v v' show False by simp
    next
      case 2
      from dbm_next[OF v'(1) 2 v(2), of y] e v v' y show False by simp
    qed
  qed
  with e y show ?thesis by simp
qed

lemma ord2ymd_ymd2ord:
  assumes "1 \<le> m" "m \<le> 12" "1 \<le> d" "d \<le> days_in_month y m"
  shows "ord2ymd (ymd2ord y m d) = (y, m, d)"
proof -
  obtain y' m' d' where o: "ord2ymd (ymd2ord y m d) = (y', m', d')"
    by (cases "ord2ymd (ymd2ord y m d)") auto
  from ord2ymd_sound[OF o]
  have s: "ymd2ord y' m' d' = ymd2ord y m d" "1 \<le> m'" "m' \<le> 12" "1 \<le> d'" "d' \<le> days_in_month y' m'"
    by simp_all
  from ymd2ord_inj[OF assms s(2-5) s(1)[symmetric]] o show ?thesis by simp
qed

section \<open>Strings\<close>

lemma rstrip_prefix: "\<exists>ws. s = rstrip s @ ws \<and> (\<forall>c \<in> set ws. isspace c)"
proof -
  have "rev s = takeWhile isspace (rev s) @ dropWhile isspace (rev s)" by simp
  then have "s = rev (dropWhile isspace (rev s)) @ rev (takeWhile isspace (rev s))"
    by (metis rev_append rev_rev_ident)
  moreover have "\<forall>c \<in> set (rev (takeWhile isspace (rev s))). isspace c"
    by (auto dest: set_takeWhileD)
  ultimately show ?thesis unfolding rstrip_def by blast
qed

lemma length_rstrip: "length (rstrip s) \<le> length s"
  unfolding rstrip_def by (simp add: length_dropWhile_le order_trans[OF length_dropWhile_le])

lemma rstrip_no_trailing: "rstrip s = [] \<or> \<not> isspace (last (rstrip s))"
proof (cases "dropWhile isspace (rev s)")
  case Nil
  then show ?thesis by (simp add: rstrip_def)
next
  case (Cons c cs)
  then have "\<not> isspace c" by (metis hd_dropWhile list.sel(1) list.distinct(1))
  with Cons show ?thesis by (simp add: rstrip_def)
qed

lemma zero_days_loop_eq:
  "zero_days_loop cs acc = acc @ map date (filter (\<lambda>d. count d = 0) cs)"
  by (induction cs arbitrary: acc) simp_all

lemma py_split_no_sep: "sep \<notin> set seg \<Longrightarrow> py_split sep seg = [seg]"
  by (induction seg) auto

lemma py_split_append: "sep \<notin> set seg \<Longrightarrow> py_split sep (seg @ sep # t) = seg # py_split sep t"
  by (induction seg) auto

lemma py_split_join:
  "segs \<noteq> [] \<Longrightarrow> \<forall>seg \<in> set segs. sep \<notin> set seg \<Longrightarrow> py_split sep (py_join sep segs) = segs"
proof (induction sep segs rule: py_join.induct)
  case (1 sep)
  then show ?case by simp
next
  case (2 sep seg)
  then show ?case by (simp add: py_split_no_sep)
next
  case (3 sep seg v va)
  then show ?case by (simp add: py_split_append)
qed

lemma py_split_not_Nil: "py_split sep s \<noteq> []"
  by (induction s) (auto split: list.splits)

lemma py_join_split: "py_join sep (py_split sep s) = s"
proof (induction s)
  case Nil
  show ?case by simp
next
  case (Cons c s)
  obtain x xs where x: "py_split sep s = x # xs"
    using py_split_not_Nil[of sep s] by (cases "py_split sep s") auto
  with Cons show ?case by (cases xs) auto
qed

lemma py_split_segments: "seg \<in> set (py_split sep s) \<Longrightarrow> sep \<notin> set seg"
  by (induction s arbitrary: seg) (auto split: if_splits list.splits)

lemma take_rstrip_le: "length (rstrip (take n s)) \<le> n"
  using length_rstrip[of "take n s"] by simp

section \<open>The claims about texts and lists\<close>

text \<open>
  C6. When the client can be built and the endpoint answers with a first choice whose text
  is \<open>content\<close>, of any length, the generator returns the text stripped, cut to its
  first 220 code points and stripped of trailing white space again: the message has at
  most 220 code points, does not end in white space, and is the cut text up to the white
  space removed at its end.
\<close>

theorem generate_ai_commit_text_at_most_220:
  assumes "build_ai_client env settings = Inr client"
    and "chat_completions_create env (ticks w) client (openai_model settings) (ai_messages ctx)
           = Inr (Some content # rest)"
  shows "fst (generate_ai_commit_text env settings ctx w) = Inr (rstrip (take 220 (strip content)))
       \<and> length (rstrip (take 220 (strip content))) \<le> 220
       \<and> (rstrip (take 220 (strip content)) = [] \<or> \<not> isspace (last (rstrip (take 220 (strip content)))))
       \<and> (\<exists>ws. take 220 (strip content) = rstrip (take 220 (strip content)) @ ws \<and> list_all isspace ws)"
proof -
  have r: "fst (generate_ai_commit_text env settings ctx w) = Inr (rstrip (take 220 (strip content)))"
    using assms by (simp add: generate_ai_commit_text_def Let_def)
  obtain ws where "take 220 (strip content) = rstrip (take 220 (strip content)) @ ws"
      "\<forall>c \<in> set ws. isspace c"
    using rstrip_prefix[of "take 220 (strip content)"] by blast
  then have "\<exists>ws. take 220 (strip content) = rstrip (take 220 (strip content)) @ ws \<and> list_all isspace ws"
    by (auto simp: list_all_iff)
  with r take_rstrip_le[of 220 "strip content"] rstrip_no_trailing[of "take 220 (strip content)"]
  show ?thesis by blast
qed

theorem generate_ai_commit_text_at_most_220_witness:
  "fst (generate_ai_commit_text example_env (example_settings\<lparr>openai_api_key := Some (ustr ''sk-test'')\<rparr>)
          None example_world) = Inr (ustr ''feat: QR export'')
   \<and> length (ustr ''feat: QR export'') \<le> 220"
proof -
  let ?s = "example_settings\<lparr>openai_api_key := Some (ustr ''sk-test'')\<rparr>"
  let ?c = "\<lparr>client_api_key = ustr ''sk-test'', client_base_url = ustr ''https://api.proxyapi.ru/deepseek/'',
             client_default_headers = None\<rparr>"
  have b: "build_ai_client example_env ?s = Inr ?c"
    by (simp add: build_ai_client_def example_env_def example_settings_def ustr_def)
  have c: "chat_completions_create example_env (ticks example_world) ?c (openai_model ?s) (ai_messages None)
         = Inr (Some (ustr ''  feat: QR export  '') # [])"
    by (simp add: example_env_def)
  have s: "rstrip (take 220 (strip (ustr ''  feat: QR export  ''))) = ustr ''feat: QR export''"
    by (simp add: strip_def rstrip_def lstrip_def isspace_def ustr_def)
  from generate_ai_commit_text_at_most_220[OF b c] show ?thesis
    unfolding s by (simp add: ustr_def)
qed

text \<open>
  C8. The loop of the script collects exactly the dates of the entries whose count is 0, in
  the order of the list, and the script prints the headline and then that list.
\<close>

theorem zero_days_are_the_zero_count_dates:
  "zero_days_loop contributions [] = map date (filter (\<lambda>day. count day = 0) contributions)
   \<and> get_gata (Inr contributions)
       = (Inr (), [PrintStr HEADLINE, PrintList (map date (filter (\<lambda>day. count day = 0) contributions))])"
  by (simp add: zero_days_loop_eq get_gata_def)

text \<open>
  C9. A dates argument is some segments joined by commas (none of them holding a comma).
  The dispatcher hands to \<open>fill_missing_days\<close> exactly the segments that are not empty
  once stripped, stripped, in their order: empty segments (a trailing or doubled comma) and
  segments of white space are dropped.
\<close>

theorem fill_missing_dates_are_the_nonempty_segments:
  assumes "segs \<noteq> []" and "\<forall>seg \<in> set segs. 44 \<notin> set seg"
    and "load_settings env DEFAULT_REPO_PATH (args_repo_url a) = Inr s"
    and "args_cmd a = CmdFillMissing (py_join 44 segs)"
  shows "split_dates (py_join 44 segs) = filter (\<lambda>d. d \<noteq> []) (map strip segs)
       \<and> main env DEFAULT_REPO_PATH a w
           = fill_missing_days env s (filter (\<lambda>d. d \<noteq> []) (map strip segs)) (startup_identity env w)"
proof -
  have "split_dates (py_join 44 segs) = filter (\<lambda>d. d \<noteq> []) (map strip segs)"
    using assms(1,2) by (simp add: split_dates_def py_split_join filter_map comp_def)
  then show ?thesis
    using assms(3,4) by (simp add: main_def Let_def)
qed

theorem fill_missing_dates_are_the_nonempty_segments_witness:
  "split_dates (ustr ''2025-10-01, 2025-10-02 ,,  ,2025-10-04,'')
     = [ustr ''2025-10-01'', ustr ''2025-10-02'', ustr ''2025-10-04'']
   \<and> main example_env (ustr ''/cache/swamp_git'')
        \<lparr>args_repo_url = Some (ustr ''git@github.com:USER/REPO.git''),
         args_cmd = CmdFillMissing (ustr ''2025-10-01, 2025-10-02 ,,  ,2025-10-04,'')\<rparr> example_world
     = fill_missing_days example_env example_settings
         [ustr ''2025-10-01'', ustr ''2025-10-02'', ustr ''2025-10-04'']
         (startup_identity example_env example_world)"
proof -
  let ?segs = "[ustr ''2025-10-01'', ustr '' 2025-10-02 '', [], ustr ''  '', ustr ''2025-10-04'', []]"
  let ?a = "\<lparr>args_repo_url = Some (ustr ''git@github.com:USER/REPO.git''),
         args_cmd = CmdFillMissing (ustr ''2025-10-01, 2025-10-02 ,,  ,2025-10-04,'')\<rparr>"
  have j: "py_join 44 ?segs = ustr ''2025-10-01, 2025-10-02 ,,  ,2025-10-04,''"
    by (simp add: ustr_def)
  have 1: "?segs \<noteq> []" by simp
  have 2: "\<forall>seg \<in> set ?segs. 44 \<notin> set seg" by (simp add: ustr_def)
  have 3: "load_settings example_env (ustr ''/cache/swamp_git'') (args_repo_url ?a) = Inr example_settings"
    by (simp add: load_settings_def example_env_def example_settings_def truthy_def getenv_default_def ustr_def)
  have 4: "args_cmd ?a = CmdFillMissing (py_join 44 ?segs)"
    unfolding j by simp
  have f: "filter (\<lambda>d. d \<noteq> []) (map strip ?segs) = [ustr ''2025-10-01'', ustr ''2025-10-02'', ustr ''2025-10-04'']"
    by (simp add: strip_def rstrip_def lstrip_def isspace_def ustr_def)
  from fill_missing_dates_are_the_nonempty_segments[OF 1 2 3 4, of example_world]
  show ?thesis unfolding f j .
qed

section \<open>The date backdating calculator\<close>

lemma dby_1: "days_before_year 1 = 0"
  by (simp add: days_before_year_def)

lemma dby_10000: "days_before_year 10000 = 3652059"
  by (simp add: days_before_year_def)

lemma toordinal_range:
  assumes "valid_datetime d"
  shows "1 \<le> toordinal d \<and> toordinal d \<le> MAXORDINAL"
proof -
  let ?y = "dt_year d" and ?m = "dt_month d"
  from assms have v: "1 \<le> ?y" "?y \<le> 9999" "1 \<le> ?m" "?m \<le> 12" "1 \<le> dt_day d"
      "dt_day d \<le> days_in_month ?y ?m"
    by (simp_all add: valid_datetime_def)
  have lo: "0 \<le> days_before_year ?y" using dby_mono[OF v(1)] dby_1 by simp
  have "?y + 1 \<le> 10000" using v(2) by simp
  from dby_mono[OF this] have hi: "days_before_year (?y + 1) \<le> 3652059" using dby_10000 by simp
  from dbm_year[OF v(3,4), of ?y] dby_Suc[of ?y] lo hi v(5,6) show ?thesis
    by (simp add: toordinal_def ymd2ord_def MAXORDINAL_def split: if_splits)
qed

lemma time_of_day:
  fixes h mi se :: int
  assumes "0 \<le> h" "h < 24" "0 \<le> mi" "mi < 60" "0 \<le> se" "se < 60"
  shows "(se + mi * 60 + h * 3600) div 86400 = 0" "(se + mi * 60 + h * 3600) mod 86400 = se + mi * 60 + h * 3600"
    "(se + mi * 60 + h * 3600) div 3600 = h" "(se + mi * 60 + h * 3600) mod 3600 = se + mi * 60"
    "(se + mi * 60) div 60 = mi" "(se + mi * 60) mod 60 = se"
    "(se + mi * 60) mod 3600 = se + mi * 60" "se mod 60 = se"
proof -
  show "se mod 60 = se" using assms by (intro mod_pos_pos_trivial) auto
  show "(se + mi * 60) mod 3600 = se + mi * 60" using assms by (intro mod_pos_pos_trivial) auto
  show "(se + mi * 60 + h * 3600) div 86400 = 0" using assms by (intro div_pos_pos_trivial) auto
  show "(se + mi * 60 + h * 3600) mod 86400 = se + mi * 60 + h * 3600"
    using assms by (intro mod_pos_pos_trivial) auto
  show "(se + mi * 60 + h * 3600) div 3600 = h"
    using assms by (intro int_div_pos_eq[where r="se + mi * 60"]) auto
  show "(se + mi * 60 + h * 3600) mod 3600 = se + mi * 60"
    using assms by (intro int_mod_pos_eq[where q=h]) auto
  show "(se + mi * 60) div 60 = mi" using assms by (intro int_div_pos_eq[where r=se]) auto
  show "(se + mi * 60) mod 60 = se" using assms by (intro int_mod_pos_eq[where q=mi]) auto
qed

lemma datetime_add_days:
  assumes v: "valid_datetime d" and k: "\<bar>k\<bar> \<le> 999999999"
  shows "datetime_add d \<lparr>td_days = k, td_seconds = 0, td_microseconds = 0\<rparr> =
     (if 0 < toordinal d + k \<and> toordinal d + k \<le> MAXORDINAL then
        (case ord2ymd (toordinal d + k) of
           (y, m, dd) \<Rightarrow>
             Inr \<lparr>dt_year = y, dt_month = m, dt_day = dd, dt_hour = dt_hour d,
                  dt_minute = dt_minute d, dt_second = dt_second d,
                  dt_microsecond = dt_microsecond d, dt_tzinfo = dt_tzinfo d\<rparr>)
      else Inl OverflowError)"
proof -
  from v have t: "0 \<le> dt_hour d" "dt_hour d < 24" "0 \<le> dt_minute d" "dt_minute d < 60"
      "0 \<le> dt_second d" "dt_second d < 60"
    and us: "0 \<le> dt_microsecond d" "dt_microsecond d < 1000000"
    by (simp_all add: valid_datetime_def)
  note tod = time_of_day[OF t]
  have usd: "dt_microsecond d div 1000000 = 0" "dt_microsecond d mod 1000000 = dt_microsecond d"
    using us by simp_all
  from toordinal_range[OF v] have o: "1 \<le> toordinal d" "toordinal d \<le> 3652059"
    by (simp_all add: MAXORDINAL_def)
  have self: "timedelta_new (toordinal d) (dt_second d) (dt_microsecond d) (dt_minute d) (dt_hour d)
     = Inr \<lparr>td_days = toordinal d, td_seconds = dt_second d + dt_minute d * 60 + dt_hour d * 3600,
            td_microseconds = dt_microsecond d\<rparr>"
    using o by (simp add: timedelta_new_def Let_def tod usd)
  have sum: "timedelta_new (toordinal d + k) (dt_second d + dt_minute d * 60 + dt_hour d * 3600)
       (dt_microsecond d) 0 0
     = (if \<bar>toordinal d + k\<bar> > 999999999 then Inl OverflowError
        else Inr \<lparr>td_days = toordinal d + k, td_seconds = dt_second d + dt_minute d * 60 + dt_hour d * 3600,
            td_microseconds = dt_microsecond d\<rparr>)"
    by (simp add: timedelta_new_def Let_def tod usd)
  show ?thesis
  proof (cases "0 < toordinal d + k \<and> toordinal d + k \<le> MAXORDINAL")
    case True
    then have "\<not> \<bar>toordinal d + k\<bar> > 999999999" by (simp add: MAXORDINAL_def)
    with True show ?thesis
      unfolding datetime_add_def self by (simp add: sum Let_def tod split: prod.splits)
  next
    case False
    then show ?thesis
      unfolding datetime_add_def self by (auto simp: sum Let_def)
  qed
qed

lemma datetime_sub_days:
  assumes v: "valid_datetime d"
  shows "datetime_sub d \<lparr>rd_days = k, rd_hours = 0\<rparr> =
     (if 0 < toordinal d - k \<and> toordinal d - k \<le> MAXORDINAL then
        (case ord2ymd (toordinal d - k) of
           (y, m, dd) \<Rightarrow>
             Inr \<lparr>dt_year = y, dt_month = m, dt_day = dd, dt_hour = dt_hour d,
                  dt_minute = dt_minute d, dt_second = dt_second d,
                  dt_microsecond = dt_microsecond d, dt_tzinfo = dt_tzinfo d\<rparr>)
      else Inl OverflowError)"
proof -
  from v have day: "min (days_in_month (dt_year d) (dt_month d)) (dt_day d) = dt_day d"
    by (simp add: valid_datetime_def)
  from toordinal_range[OF v] have o: "1 \<le> toordinal d" "toordinal d \<le> 3652059"
    by (simp_all add: MAXORDINAL_def)
  have neg: "relativedelta_neg \<lparr>rd_days = k, rd_hours = 0\<rparr> = \<lparr>rd_days = - k, rd_hours = 0\<rparr>"
    by (simp add: relativedelta_neg_def relativedelta_new_def)
  have same: "d\<lparr>dt_day := dt_day d\<rparr> = d" by simp
  have sub: "datetime_sub d \<lparr>rd_days = k, rd_hours = 0\<rparr> =
      (case timedelta_new (- k) 0 0 0 0 of Inl e \<Rightarrow> Inl e | Inr td \<Rightarrow> datetime_add d td)"
    unfolding datetime_sub_def neg relativedelta_radd_def by (simp add: Let_def day same cong: sum.case_cong)
  show ?thesis
  proof (cases "\<bar>k\<bar> \<le> 999999999")
    case True
    then have a: "\<bar>- k\<bar> \<le> 999999999" by simp
    have "timedelta_new (- k) 0 0 0 0 = Inr \<lparr>td_days = - k, td_seconds = 0, td_microseconds = 0\<rparr>"
      using True by (simp add: timedelta_new_def)
    with datetime_add_days[OF v a] show ?thesis unfolding sub by simp
  next
    case False
    with o have n: "\<not> (0 < toordinal d - k \<and> toordinal d - k \<le> MAXORDINAL)"
      by (auto simp: MAXORDINAL_def)
    have "timedelta_new (- k) 0 0 0 0 = Inl OverflowError"
      using False by (simp add: timedelta_new_def)
    then have "datetime_sub d \<lparr>rd_days = k, rd_hours = 0\<rparr> = Inl OverflowError"
      unfolding sub by simp
    with n show ?thesis by (simp only: if_False)
  qed
qed

lemma datetime_sub_zero:
  assumes v: "valid_datetime d"
  shows "datetime_sub d \<lparr>rd_days = 0, rd_hours = 0\<rparr> = Inr d"
proof -
  from v have "ord2ymd (toordinal d) = (dt_year d, dt_month d, dt_day d)"
    unfolding toordinal_def by (intro ord2ymd_ymd2ord) (simp_all add: valid_datetime_def)
  with datetime_sub_days[OF v, of 0] toordinal_range[OF v] show ?thesis by simp
qed

lemma relativedelta_new_zero: "relativedelta_new 0 0 0 = \<lparr>rd_days = 0, rd_hours = 0\<rparr>"
  by (simp add: relativedelta_new_def)

lemma relativedelta_new_days: "relativedelta_new 0 k 0 = \<lparr>rd_days = k, rd_hours = 0\<rparr>"
  by (simp add: relativedelta_new_def)

lemma compute_backdated_when_no_delta:
  assumes "pytz_timezone env tzname = Some tz" and "valid_datetime (datetime_now env (ticks w) tz)"
    and "scheme = Some (ustr ''hourly'') \<or> scheme = Some (ustr ''daily'') \<or> scheme = Some (ustr ''weekly'')
           \<longrightarrow> index = 0"
  shows "compute_backdated_when env tzname scheme index w
           = (Inr (replace_noon (datetime_now env (ticks w) tz)), tick w)"
proof -
  have "(if scheme = Some (ustr ''hourly'') then relativedelta_new index 0 0
         else if scheme = Some (ustr ''daily'') then relativedelta_new 0 index 0
         else if scheme = Some (ustr ''weekly'') then relativedelta_new 0 0 index
         else relativedelta_new 0 0 0) = \<lparr>rd_days = 0, rd_hours = 0\<rparr>"
    using assms(3) by (auto simp: relativedelta_new_def)
  then show ?thesis
    using assms(1) datetime_sub_zero[OF assms(2)]
    by (simp add: compute_backdated_when_def Let_def)
qed

lemma compute_backdated_when_daily:
  assumes tz: "pytz_timezone env tzname = Some tz" and v: "valid_datetime (datetime_now env (ticks w) tz)"
    and r: "0 < toordinal (datetime_now env (ticks w) tz) - i"
           "toordinal (datetime_now env (ticks w) tz) - i \<le> MAXORDINAL"
  shows "\<exists>d. compute_backdated_when env tzname (Some (ustr ''daily'')) i w = (Inr d, tick w)
           \<and> toordinal d = toordinal (datetime_now env (ticks w) tz) - i
           \<and> dt_hour d = 12 \<and> dt_minute d = 0 \<and> dt_second d = 0 \<and> dt_microsecond d = 0
           \<and> dt_tzinfo d = dt_tzinfo (datetime_now env (ticks w) tz)"
proof -
  let ?base = "datetime_now env (ticks w) tz"
  obtain y m dd where o: "ord2ymd (toordinal ?base - i) = (y, m, dd)"
    by (cases "ord2ymd (toordinal ?base - i)") auto
  from ord2ymd_sound[OF o] have s: "ymd2ord y m dd = toordinal ?base - i" by simp
  have ne: "ustr ''daily'' \<noteq> ustr ''hourly''" by (simp add: ustr_def)
  from datetime_sub_days[OF v, of i] r o
  have "datetime_sub ?base (relativedelta_new 0 i 0) =
     Inr \<lparr>dt_year = y, dt_month = m, dt_day = dd, dt_hour = dt_hour ?base,
                  dt_minute = dt_minute ?base, dt_second = dt_second ?base,
                  dt_microsecond = dt_microsecond ?base, dt_tzinfo = dt_tzinfo ?base\<rparr>"
    by (simp add: relativedelta_new_days)
  then show ?thesis
    using tz s ne by (simp add: compute_backdated_when_def Let_def replace_noon_def toordinal_def)
qed

lemma compute_backdated_when_noon:
  assumes "fst (compute_backdated_when env tzname scheme index w) = Inr d"
  shows "dt_hour d = 12 \<and> dt_minute d = 0 \<and> dt_second d = 0 \<and> dt_microsecond d = 0"
  using assms
  by (auto simp: compute_backdated_when_def Let_def replace_noon_def split: option.splits sum.splits)

lemma valid_example_now: "valid_datetime example_now"
  by (simp add: valid_datetime_def example_now_def days_in_month_def DAYS_IN_MONTH_def is_leap_def)

lemma toordinal_example_now: "toordinal example_now = 739559"
  by (simp add: toordinal_def example_now_def ymd2ord_def days_before_year_def days_before_month_def
      DAYS_BEFORE_MONTH_def is_leap_def)

lemma example_tz: "pytz_timezone example_env (ustr ''Europe/Amsterdam'') = Some (TZone (ustr ''Europe/Amsterdam''))"
  by (simp add: example_env_def)

lemma example_clock: "datetime_now example_env t tz = example_now"
  by (simp add: example_env_def)

text \<open>
  C1, as the code has it. For a known time zone, a call with no scheme returns the current
  time of that zone with the clock replaced by 12:00:00.000000, whatever the index: the
  result is normalized to local noon exactly as under \<open>hourly\<close>, \<open>daily\<close> and
  \<open>weekly\<close>, and every timestamp the function returns, for any scheme and index, is at
  noon.
\<close>

theorem no_scheme_is_normalized_to_noon:
  assumes "pytz_timezone env tzname = Some tz" and "valid_datetime (datetime_now env (ticks w) tz)"
  shows "fst (compute_backdated_when env tzname None index w)
           = Inr (replace_noon (datetime_now env (ticks w) tz))
       \<and> (\<forall>scheme i d. fst (compute_backdated_when env tzname scheme i w) = Inr d \<longrightarrow>
             dt_hour d = 12 \<and> dt_minute d = 0 \<and> dt_second d = 0 \<and> dt_microsecond d = 0)"
  using compute_backdated_when_no_delta[OF assms, of None index] compute_backdated_when_noon
  by simp

theorem no_scheme_is_normalized_to_noon_witness:
  "fst (compute_backdated_when example_env (ustr ''Europe/Amsterdam'') None 7 example_world)
     = Inr \<lparr>dt_year = 2025, dt_month = 11, dt_day = 4, dt_hour = 12, dt_minute = 0, dt_second = 0,
            dt_microsecond = 0, dt_tzinfo = Some example_tzinfo\<rparr>"
proof -
  have v: "valid_datetime (datetime_now example_env (ticks example_world) (TZone (ustr ''Europe/Amsterdam'')))"
    unfolding example_clock by (rule valid_example_now)
  from no_scheme_is_normalized_to_noon[OF example_tz v, of 7]
  show ?thesis by (simp add: example_clock replace_noon_def example_now_def)
qed

text \<open>
  C1 as stated fails: at 09:30:15.000123 a call with no scheme does not return the current
  time unmodified.
\<close>

theorem no_scheme_unmodified_counterexample:
  "fst (compute_backdated_when example_env (ustr ''Europe/Amsterdam'') None 0 example_world)
     \<noteq> Inr (datetime_now example_env (ticks example_world) (TZone (ustr ''Europe/Amsterdam'')))"
proof -
  have v: "valid_datetime (datetime_now example_env (ticks example_world) (TZone (ustr ''Europe/Amsterdam'')))"
    unfolding example_clock by (rule valid_example_now)
  from compute_backdated_when_no_delta[OF example_tz v, of None 0]
  show ?thesis by (simp add: example_clock replace_noon_def example_now_def)
qed

text \<open>
  C5. For a known time zone, scheme \<open>daily\<close> and two consecutive indices \<open>i\<close> and
  \<open>i + 1\<close> read at the same base time (both dates exist: the calendar starts at
  0001-01-01), both timestamps are computed, the first is \<open>i\<close> calendar days before the
  base date and the second exactly one calendar day before the first; both have the local
  clock time 12:00:00.000000 and keep the base's tzinfo. Index 0 with any scheme yields
  today at noon.
\<close>

theorem daily_backdating_one_day_apart_at_noon:
  assumes tz: "pytz_timezone env tzname = Some tz"
    and v: "valid_datetime (datetime_now env (ticks w) tz)"
    and i: "0 \<le> i" "i + 1 < toordinal (datetime_now env (ticks w) tz)"
  shows "\<exists>d0 d1.
           fst (compute_backdated_when env tzname (Some (ustr ''daily'')) i w) = Inr d0
         \<and> fst (compute_backdated_when env tzname (Some (ustr ''daily'')) (i + 1) w) = Inr d1
         \<and> toordinal d0 = toordinal (datetime_now env (ticks w) tz) - i
         \<and> toordinal d0 - toordinal d1 = 1
         \<and> dt_hour d0 = 12 \<and> dt_minute d0 = 0 \<and> dt_second d0 = 0 \<and> dt_microsecond d0 = 0
         \<and> dt_hour d1 = 12 \<and> dt_minute d1 = 0 \<and> dt_second d1 = 0 \<and> dt_microsecond d1 = 0
         \<and> dt_tzinfo d0 = dt_tzinfo (datetime_now env (ticks w) tz) \<and> dt_tzinfo d1 = dt_tzinfo d0
         \<and> fst (compute_backdated_when env tzname scheme 0 w)
             = Inr (replace_noon (datetime_now env (ticks w) tz))"
proof -
  let ?base = "datetime_now env (ticks w) tz"
  from toordinal_range[OF v] have o: "toordinal ?base \<le> MAXORDINAL" by simp
  have r0: "0 < toordinal ?base - i" "toordinal ?base - i \<le> MAXORDINAL" using i o by simp_all
  have r1: "0 < toordinal ?base - (i + 1)" "toordinal ?base - (i + 1) \<le> MAXORDINAL" using i o by simp_all
  from compute_backdated_when_daily[OF tz v r0] obtain d0 where
    d0: "compute_backdated_when env tzname (Some (ustr ''daily'')) i w = (Inr d0, tick w)"
      "toordinal d0 = toordinal ?base - i"
      "dt_hour d0 = 12 \<and> dt_minute d0 = 0 \<and> dt_second d0 = 0 \<and> dt_microsecond d0 = 0"
      "dt_tzinfo d0 = dt_tzinfo ?base"
    by blast
  from compute_backdated_when_daily[OF tz v r1] obtain d1 where
    d1: "compute_backdated_when env tzname (Some (ustr ''daily'')) (i + 1) w = (Inr d1, tick w)"
      "toordinal d1 = toordinal ?base - (i + 1)"
      "dt_hour d1 = 12 \<and> dt_minute d1 = 0 \<and> dt_second d1 = 0 \<and> dt_microsecond d1 = 0"
      "dt_tzinfo d1 = dt_tzinfo ?base"
    by blast
  have z: "fst (compute_backdated_when env tzname scheme 0 w) = Inr (replace_noon ?base)"
    using compute_backdated_when_no_delta[OF tz v, of scheme 0] by simp
  show ?thesis
    apply (rule exI[of _ d0], rule exI[of _ d1])
    using d0 d1 z by simp
qed

lemma compute_backdated_when_example:
  "fst (compute_backdated_when example_env (ustr ''Europe/Amsterdam'') (Some (ustr ''daily'')) 3 example_world)
     = Inr \<lparr>dt_year = 2025, dt_month = 11, dt_day = 1, dt_hour = 12, dt_minute = 0, dt_second = 0,
            dt_microsecond = 0, dt_tzinfo = Some example_tzinfo\<rparr>"
  "fst (compute_backdated_when example_env (ustr ''Europe/Amsterdam'') (Some (ustr ''daily'')) 4 example_world)
     = Inr \<lparr>dt_year = 2025, dt_month = 10, dt_day = 31, dt_hour = 12, dt_minute = 0, dt_second = 0,
            dt_microsecond = 0, dt_tzinfo = Some example_tzinfo\<rparr>"
proof -
  have ne: "ustr ''daily'' \<noteq> ustr ''hourly''" by (simp add: ustr_def)
  have a: "ord2ymd 739556 = (2025, 11, 1)"
    by (simp add: ord2ymd_def month_day_def Let_def DAYS_BEFORE_MONTH_def DAYS_IN_MONTH_def)
  have b: "ord2ymd 739555 = (2025, 10, 31)"
    by (simp add: ord2ymd_def month_day_def Let_def DAYS_BEFORE_MONTH_def DAYS_IN_MONTH_def)
  have f: "dt_hour example_now = 9" "dt_minute example_now = 30" "dt_second example_now = 15"
    "dt_microsecond example_now = 123" "dt_tzinfo example_now = Some example_tzinfo"
    by (simp_all add: example_now_def)
  have s3: "datetime_sub example_now \<lparr>rd_days = 3, rd_hours = 0\<rparr>
     = Inr \<lparr>dt_year = 2025, dt_month = 11, dt_day = 1, dt_hour = 9, dt_minute = 30, dt_second = 15,
            dt_microsecond = 123, dt_tzinfo = Some example_tzinfo\<rparr>"
    using datetime_sub_days[OF valid_example_now, of 3]
    by (simp add: toordinal_example_now MAXORDINAL_def a f)
  have s4: "datetime_sub example_now \<lparr>rd_days = 4, rd_hours = 0\<rparr>
     = Inr \<lparr>dt_year = 2025, dt_month = 10, dt_day = 31, dt_hour = 9, dt_minute = 30, dt_second = 15,
            dt_microsecond = 123, dt_tzinfo = Some example_tzinfo\<rparr>"
    using datetime_sub_days[OF valid_example_now, of 4]
    by (simp add: toordinal_example_now MAXORDINAL_def b f)
  show "fst (compute_backdated_when example_env (ustr ''Europe/Amsterdam'') (Some (ustr ''daily'')) 3 example_world)
     = Inr \<lparr>dt_year = 2025, dt_month = 11, dt_day = 1, dt_hour = 12, dt_minute = 0, dt_second = 0,
            dt_microsecond = 0, dt_tzinfo = Some example_tzinfo\<rparr>"
    using ne
    by (simp add: compute_backdated_when_def Let_def example_tz example_clock relativedelta_new_days
        s3 replace_noon_def)
  show "fst (compute_backdated_when example_env (ustr ''Europe/Amsterdam'') (Some (ustr ''daily'')) 4 example_world)
     = Inr \<lparr>dt_year = 2025, dt_month = 10, dt_day = 31, dt_hour = 12, dt_minute = 0, dt_second = 0,
            dt_microsecond = 0, dt_tzinfo = Some example_tzinfo\<rparr>"
    using ne
    by (simp add: compute_backdated_when_def Let_def example_tz example_clock relativedelta_new_days
        s4 replace_noon_def)
qed

theorem daily_backdating_one_day_apart_at_noon_witness:
  "\<exists>d0 d1.
     fst (compute_backdated_when example_env (ustr ''Europe/Amsterdam'') (Some (ustr ''daily'')) 3 example_world) = Inr d0
   \<and> fst (compute_backdated_when example_env (ustr ''Europe/Amsterdam'') (Some (ustr ''daily'')) 4 example_world) = Inr d1
   \<and> toordinal d0 = 739556 \<and> toordinal d0 - toordinal d1 = 1
   \<and> dt_hour d0 = 12 \<and> dt_minute d0 = 0 \<and> dt_second d0 = 0 \<and> dt_microsecond d0 = 0
   \<and> dt_hour d1 = 12 \<and> dt_minute d1 = 0 \<and> dt_second d1 = 0 \<and> dt_microsecond d1 = 0"
proof -
  have v: "valid_datetime (datetime_now example_env (ticks example_world) (TZone (ustr ''Europe/Amsterdam'')))"
    unfolding example_clock by (rule valid_example_now)
  have i: "(0::int) \<le> 3"
    "3 + 1 < toordinal (datetime_now example_env (ticks example_world) (TZone (ustr ''Europe/Amsterdam'')))"
    unfolding example_clock toordinal_example_now by simp_all
  from daily_backdating_one_day_apart_at_noon[OF example_tz v i, of None]
  show ?thesis unfolding example_clock toordinal_example_now by auto
qed

section \<open>The activity file writer\<close>



lemma digit_range: "48 \<le> digit n \<and> digit n \<le> 57"
proof -
  have "0 \<le> n mod 10" "n mod 10 < 10" by simp_all
  then show ?thesis unfolding digit_def by linarith
qed

lemma digit_ascii: "digit n < 128"
  using digit_range[of n] by simp

lemma pad2_ascii: "\<forall>c \<in> set (pad2 n). c < 128"
  by (simp add: pad2_def digit_ascii)

lemma ustr_ascii: "\<forall>c \<in> set s. of_char c < (128::nat) \<Longrightarrow> \<forall>c \<in> set (ustr s). c < 128"
  by (simp add: ustr_def)




















section \<open>Commit and push\<close>

lemma bind_Inr: "m w = (Inr x, w') \<Longrightarrow> bind m f w = f x w'"
  by (simp add: bind_def)


lemma quiet_run_refl: "quiet_run w w"
  by (simp add: quiet_run_def)

lemma quiet_run_trans: "quiet_run w w1 \<Longrightarrow> quiet_run w1 w2 \<Longrightarrow> quiet_run w w2"
  by (auto simp: quiet_run_def)

lemma untouched_refl: "untouched w w"
  by (simp add: untouched_def)

lemma untouched_trans: "untouched w w1 \<Longrightarrow> untouched w1 w2 \<Longrightarrow> untouched w w2"
  by (simp add: untouched_def)

lemma quiet_run_emit: "quiet e \<Longrightarrow> quiet_run w (emit e w)"
  by (simp add: quiet_run_def emit_def)

lemma quiet_run_new_events: "quiet_run w w' \<Longrightarrow> list_all quiet (new_events w w')"
  by (auto simp: quiet_run_def new_events_def)

lemma trace_git_effect [simp]: "trace (git_effect env t c w) = trace w"
  by (induction env t c w rule: git_effect.induct) (auto simp: Let_def split: option.splits)

lemma ticks_git_effect [simp]: "ticks (git_effect env t c w) = ticks w"
  by (induction env t c w rule: git_effect.induct) (auto simp: Let_def split: option.splits)

lemma trace_git: "trace (snd (git env c w)) = trace w @ [Git c]"
  by (simp add: git_def Let_def tick_def emit_def)

lemma git_cases:
  obtains (ok) "\<not> git_fails env (ticks w) c"
      "git env c w = (Inr (), git_effect env (ticks w) c (tick (emit (Git c) w)))"
  | (fail) "git_fails env (ticks w) c" "git env c w = (Inl GitCommandError, tick (emit (Git c) w))"
  by (cases "git_fails env (ticks w) c") (simp_all add: git_def Let_def)

lemma quiet_git:
  assumes "c \<noteq> GitAddAll" "\<forall>r b m. c \<noteq> GitPush r b m"
  shows "quiet (Git c)"
  using assms
  by (cases c) (simp_all add: quiet_def is_staging_event_def is_commit_event_def is_push_event_def
      is_ai_event_def is_file_write_event_def)

lemma quiet_log: "quiet (LogInfo m)" "quiet (LogError m)" "quiet Rmtree" "quiet (ConfigWritten a b)"
  "quiet (Slept n)" "quiet (OsSystemGitConfigGlobal a b)"
  by (simp_all add: quiet_def is_staging_event_def is_commit_event_def is_push_event_def
      is_ai_event_def is_file_write_event_def)

lemma quiet_run_git:
  assumes "c \<noteq> GitAddAll" "\<forall>r b m. c \<noteq> GitPush r b m"
  shows "quiet_run w (snd (git env c w))"
  using quiet_git[OF assms] by (simp add: quiet_run_def trace_git)

lemma git_frame:
  assumes "c = GitRemoteAdd n url \<or> c = GitRemoteSetUrl n url \<or> c = GitCheckoutB b None"
  shows "untouched w (snd (git env c w))"
    and "local_user_name (snd (git env c w)) = local_user_name w"
    and "local_user_email (snd (git env c w)) = local_user_email w"
    and "quiet_run w (snd (git env c w))"
proof -
  show "untouched w (snd (git env c w))"
    using assms by (auto simp: git_def Let_def untouched_def tick_def emit_def)
  show "local_user_name (snd (git env c w)) = local_user_name w"
    using assms by (auto simp: git_def Let_def tick_def emit_def)
  show "local_user_email (snd (git env c w)) = local_user_email w"
    using assms by (auto simp: git_def Let_def tick_def emit_def)
  show "quiet_run w (snd (git env c w))"
    using assms by (intro quiet_run_git) auto
qed

lemma log_frame:
  "untouched w (log_info m w)" "local_user_name (log_info m w) = local_user_name w"
  "local_user_email (log_info m w) = local_user_email w" "quiet_run w (log_info m w)"
  "remotes (log_info m w) = remotes w" "active_branch (log_info m w) = active_branch w"
  "ticks (log_info m w) = ticks w"
  by (simp_all add: log_info_def emit_def untouched_def quiet_run_def quiet_log)

lemma prestage_refl: "prestage w w"
  by (simp add: prestage_def untouched_refl quiet_run_refl)

lemma prestage_trans: "prestage w w1 \<Longrightarrow> prestage w1 w2 \<Longrightarrow> prestage w w2"
  unfolding prestage_def using untouched_trans quiet_run_trans by metis

lemma prestage_git:
  assumes "c = GitRemoteAdd n url \<or> c = GitRemoteSetUrl n url \<or> c = GitCheckoutB b None"
  shows "prestage w (snd (git env c w))"
  unfolding prestage_def using git_frame[OF assms] by simp

lemma prestage_log: "prestage w (log_info m w)"
  unfolding prestage_def using log_frame by simp

lemma prestage_cfg:
  assumes "prestage w w'"
  shows "cfg_user_name w' = cfg_user_name w" "cfg_user_email w' = cfg_user_email w"
  using assms
  by (simp_all add: prestage_def untouched_def cfg_user_name_def cfg_user_email_def split: option.splits)

lemma ensure_remote_url_prestage: "prestage w (snd (ensure_remote_url env url n w))"
proof (cases "remotes w n")
  case None
  have g: "prestage w (snd (git env (GitRemoteAdd n url) w))" by (intro prestage_git) simp
  show ?thesis
  proof (cases "git env (GitRemoteAdd n url) w")
    case (Pair r w')
    with g have p: "prestage w w'" by simp
    show ?thesis
    proof (cases r)
      case (Inl e)
      with Pair None p show ?thesis by (simp add: ensure_remote_url_def bind_def)
    next
      case (Inr u)
      from prestage_trans[OF p prestage_log] Pair None Inr show ?thesis
        by (simp add: ensure_remote_url_def bind_def)
    qed
  qed
next
  case (Some current)
  show ?thesis
  proof (cases "current = url")
    case True
    with Some show ?thesis by (simp add: ensure_remote_url_def prestage_refl)
  next
    case False
    have "prestage (log_info (MsgRemoteUrlUpdate n current url) w)
            (snd (git env (GitRemoteSetUrl n url) (log_info (MsgRemoteUrlUpdate n current url) w)))"
      by (intro prestage_git) simp
    from prestage_trans[OF prestage_log this] Some False show ?thesis
      by (simp add: ensure_remote_url_def)
  qed
qed

lemma ensure_remote_url_result:
  "fst (ensure_remote_url env url n w) = Inr () \<or> fst (ensure_remote_url env url n w) = Inl GitCommandError"
  by (auto simp: ensure_remote_url_def bind_def git_def Let_def split: option.splits)

lemma ensure_remote_url_ok:
  assumes "\<forall>t. \<not> git_fails env t (GitRemoteAdd n url)" "\<forall>t. \<not> git_fails env t (GitRemoteSetUrl n url)"
  shows "fst (ensure_remote_url env url n w) = Inr ()"
    and "remotes (snd (ensure_remote_url env url n w)) = (remotes w)(n \<mapsto> url)"
    and "active_branch (snd (ensure_remote_url env url n w)) = active_branch w"
  using assms
  by (auto simp: ensure_remote_url_def bind_def git_def Let_def log_info_def emit_def tick_def
      split: option.splits)

lemma ensure_repo_identity_result:
  "fst (ensure_repo_identity env s w) =
     (case spec_identity (\<not> config_reader_fails env (ticks w)) s w of
        (rn, re) \<Rightarrow> if rn = [] \<or> re = [] then Inl SystemExit
                    else Inr \<lparr>actor_name = rn, actor_email = re\<rparr>)"
  by (auto simp: ensure_repo_identity_def spec_identity_def Let_def split: option.splits)

lemma ensure_repo_identity_frame:
  "untouched w (snd (ensure_repo_identity env s w))"
  "quiet_run w (snd (ensure_repo_identity env s w))"
  "remotes (snd (ensure_repo_identity env s w)) = remotes w"
  "active_branch (snd (ensure_repo_identity env s w)) = active_branch w"
  by (auto simp: ensure_repo_identity_def Let_def untouched_def quiet_run_def tick_def emit_def quiet_log
      split: option.splits)



lemma ensure_remote_url_Inr:
  assumes "fst (ensure_remote_url env url n w) = Inr u"
  shows "remotes (snd (ensure_remote_url env url n w)) = (remotes w)(n \<mapsto> url)"
    and "active_branch (snd (ensure_remote_url env url n w)) = active_branch w"
  using assms
  by (auto simp: ensure_remote_url_def bind_def git_def Let_def log_info_def emit_def tick_def
      split: option.splits if_splits)

lemma checkout_B_Inr:
  assumes "fst (git env (GitCheckoutB b None) w) = Inr u"
  shows "remotes (snd (git env (GitCheckoutB b None) w)) = remotes w"
    and "active_branch (snd (git env (GitCheckoutB b None) w)) = Some b"
  using assms by (auto simp: git_def Let_def emit_def tick_def split: if_splits)

lemma git_result: "fst (git env c w) = Inr () \<or> fst (git env c w) = Inl GitCommandError"
  by (simp add: git_def Let_def)

lemma git_Inl:
  assumes "fst (git env c w) = Inl e"
  shows "git_fails env (ticks w) c"
  using assms by (auto simp: git_def Let_def split: if_splits)

lemma ensure_remote_url_Inl:
  assumes "fst (ensure_remote_url env url n w) = Inl e"
  shows "\<exists>t c. git_fails env t c \<and> (\<forall>r b m. c \<noteq> GitPush r b m)"
proof -
  from assms have "git_fails env (ticks w) (GitRemoteAdd n url) \<or> git_fails env (ticks w) (GitRemoteSetUrl n url)"
    by (auto simp: ensure_remote_url_def bind_def git_def Let_def log_info_def emit_def
        split: option.splits if_splits)
  then show ?thesis
  proof
    assume "git_fails env (ticks w) (GitRemoteAdd n url)"
    then have "git_fails env (ticks w) (GitRemoteAdd n url) \<and> (\<forall>r b m. GitRemoteAdd n url \<noteq> GitPush r b m)"
      by simp
    then show ?thesis by blast
  next
    assume "git_fails env (ticks w) (GitRemoteSetUrl n url)"
    then have "git_fails env (ticks w) (GitRemoteSetUrl n url) \<and> (\<forall>r b m. GitRemoteSetUrl n url \<noteq> GitPush r b m)"
      by simp
    then show ?thesis by blast
  qed
qed

text \<open>The steps of \<open>commit_and_push\<close> before the identity is resolved, for any continuation.\<close>

lemma commit_and_push_prefix:
  fixes k :: "unit \<Rightarrow> 'a prog"
  assumes run_def: "run =
     bind (ensure_remote_url env (repo_url s) (ustr ''origin'')) (\<lambda>_.
     bind (case secondary_remote_url s of
             None \<Rightarrow> ret ()
           | Some u \<Rightarrow> if u \<noteq> [] then ensure_remote_url env u (secondary_remote_name s) else ret ()) (\<lambda>_.
     bind (git env (GitCheckoutB b None)) k))"
  obtains (failed) w' where "run w = (Inl GitCommandError, w')" "prestage w w'"
      "\<exists>t c. git_fails env t c \<and> (\<forall>r b m. c \<noteq> GitPush r b m)"
  | (reached) w1 where "prestage w w1" "active_branch w1 = Some b" "remotes w1 = remotes_ensured s w"
      "run w = k () w1"
proof -
  let ?A = "ensure_remote_url env (repo_url s) (ustr ''origin'')"
  let ?B = "case secondary_remote_url s of
             None \<Rightarrow> ret ()
           | Some u \<Rightarrow> if u \<noteq> [] then ensure_remote_url env u (secondary_remote_name s) else ret ()"
  let ?C = "git env (GitCheckoutB b None)"
  obtain rA wA where A: "?A w = (rA, wA)" by (cases "?A w") auto
  have pA: "prestage w wA" using ensure_remote_url_prestage[of w env "repo_url s" "ustr ''origin''"] A by simp
  show ?thesis
  proof (cases rA)
    case (Inl e)
    with ensure_remote_url_result[of env "repo_url s" "ustr ''origin''" w] A have "e = GitCommandError" by simp
    with Inl A have r: "run w = (Inl GitCommandError, wA)" by (simp add: run_def bind_def)
    from A Inl have "fst (?A w) = Inl e" by simp
    from failed[OF r pA ensure_remote_url_Inl[OF this]] show ?thesis .
  next
    case (Inr uA)
    from ensure_remote_url_Inr[of env "repo_url s" "ustr ''origin''" w uA] A Inr
    have remA: "remotes wA = (remotes w)(ustr ''origin'' \<mapsto> repo_url s)" and abA: "active_branch wA = active_branch w"
      by simp_all
    obtain rB wB where B: "?B wA = (rB, wB)" by (cases "?B wA") auto
    have Bc: "(?B = ret () \<and> remotes_ensured s w = (remotes w)(ustr ''origin'' \<mapsto> repo_url s))
        \<or> (\<exists>u. ?B = ensure_remote_url env u (secondary_remote_name s)
              \<and> remotes_ensured s w = (remotes w)(ustr ''origin'' \<mapsto> repo_url s, secondary_remote_name s \<mapsto> u))"
      by (auto simp: remotes_ensured_def split: option.splits)
    have pB: "prestage wA wB"
    proof -
      from Bc show ?thesis
      proof
        assume "?B = ret () \<and> remotes_ensured s w = (remotes w)(ustr ''origin'' \<mapsto> repo_url s)"
        with B show ?thesis by (simp add: ret_def prestage_refl)
      next
        assume "\<exists>u. ?B = ensure_remote_url env u (secondary_remote_name s)
              \<and> remotes_ensured s w = (remotes w)(ustr ''origin'' \<mapsto> repo_url s, secondary_remote_name s \<mapsto> u)"
        then obtain u where "?B = ensure_remote_url env u (secondary_remote_name s)" by blast
        with B ensure_remote_url_prestage[of wA env u "secondary_remote_name s"] show ?thesis by simp
      qed
    qed
    have resB: "rB = Inr () \<or> rB = Inl GitCommandError"
    proof -
      from Bc show ?thesis
      proof
        assume "?B = ret () \<and> remotes_ensured s w = (remotes w)(ustr ''origin'' \<mapsto> repo_url s)"
        with B show ?thesis by (simp add: ret_def)
      next
        assume "\<exists>u. ?B = ensure_remote_url env u (secondary_remote_name s)
              \<and> remotes_ensured s w = (remotes w)(ustr ''origin'' \<mapsto> repo_url s, secondary_remote_name s \<mapsto> u)"
        then obtain u where "?B = ensure_remote_url env u (secondary_remote_name s)" by blast
        with B ensure_remote_url_result[of env u "secondary_remote_name s" wA] show ?thesis by simp
      qed
    qed
    have run1: "run w = bind ?B (\<lambda>_. bind ?C k) wA"
      using A Inr by (simp add: run_def bind_def)
    show ?thesis
    proof (cases rB)
      case (Inl e)
      with resB have "e = GitCommandError" by simp
      with Inl B run1 have r: "run w = (Inl GitCommandError, wB)" by (simp add: bind_def)
      have "\<exists>t c. git_fails env t c \<and> (\<forall>r b m. c \<noteq> GitPush r b m)"
      proof -
        from Bc show ?thesis
        proof
          assume "?B = ret () \<and> remotes_ensured s w = (remotes w)(ustr ''origin'' \<mapsto> repo_url s)"
          with B Inl show ?thesis by (simp add: ret_def)
        next
          assume "\<exists>u. ?B = ensure_remote_url env u (secondary_remote_name s)
                \<and> remotes_ensured s w = (remotes w)(ustr ''origin'' \<mapsto> repo_url s, secondary_remote_name s \<mapsto> u)"
          then obtain u where "?B = ensure_remote_url env u (secondary_remote_name s)" by blast
          with B Inl have "fst (ensure_remote_url env u (secondary_remote_name s) wA) = Inl e" by simp
          then show ?thesis by (rule ensure_remote_url_Inl)
        qed
      qed
      from failed[OF r prestage_trans[OF pA pB] this] show ?thesis .
    next
      case (Inr uB)
      have remB: "remotes wB = remotes_ensured s w"
      proof -
        from Bc show ?thesis
        proof
          assume "?B = ret () \<and> remotes_ensured s w = (remotes w)(ustr ''origin'' \<mapsto> repo_url s)"
          with B remA show ?thesis by (simp add: ret_def)
        next
          assume "\<exists>u. ?B = ensure_remote_url env u (secondary_remote_name s)
                \<and> remotes_ensured s w = (remotes w)(ustr ''origin'' \<mapsto> repo_url s, secondary_remote_name s \<mapsto> u)"
          then obtain u where u: "?B = ensure_remote_url env u (secondary_remote_name s)"
            "remotes_ensured s w = (remotes w)(ustr ''origin'' \<mapsto> repo_url s, secondary_remote_name s \<mapsto> u)"
            by blast
          with B Inr ensure_remote_url_Inr(1)[of env u "secondary_remote_name s" wA uB] remA
          show ?thesis by simp
        qed
      qed
      obtain rC wC where C: "?C wB = (rC, wC)" by (cases "?C wB") auto
      have pC: "prestage wB wC" using prestage_git[of "GitCheckoutB b None" _ _ b wB env] C by simp
      have run2: "run w = bind ?C k wB" using run1 B Inr by (simp add: bind_def)
      show ?thesis
      proof (cases rC)
        case (Inl e)
        with git_result[of env "GitCheckoutB b None" wB] C have "e = GitCommandError" by simp
        with Inl C run2 have r: "run w = (Inl GitCommandError, wC)" by (simp add: bind_def)
        from C Inl have "fst (?C wB) = Inl e" by simp
        from git_Inl[OF this]
        have "git_fails env (ticks wB) (GitCheckoutB b None) \<and> (\<forall>r b' m. GitCheckoutB b None \<noteq> GitPush r b' m)"
          by simp
        then have "\<exists>t c. git_fails env t c \<and> (\<forall>r b m. c \<noteq> GitPush r b m)" by blast
        from failed[OF r prestage_trans[OF prestage_trans[OF pA pB] pC] this] show ?thesis .
      next
        case (Inr uC)
        from checkout_B_Inr[of env b wB uC] C Inr remB
        have ab: "active_branch wC = Some b" and rem: "remotes wC = remotes_ensured s w" by simp_all
        have "run w = k () wC" using run2 C Inr by (simp add: bind_def)
        from reached[OF prestage_trans[OF prestage_trans[OF pA pB] pC] ab rem this] show ?thesis .
      qed
    qed
  qed
qed







lemma push_origin_run:
  "\<exists>pevs. trace (snd (push_origin env b w)) = trace w @ pevs
      \<and> list_all (\<lambda>e. \<not> is_commit_event e \<and> \<not> is_staging_event e) pevs
      \<and> (\<exists>m. filter is_push_event pevs = [Git (GitPush (ustr ''origin'') b m)])
      \<and> (fst (push_origin env b w) = Inl GitCommandError \<longrightarrow> LogError MsgPushOriginFailed \<in> set pevs)"
  by (auto simp: push_origin_def git_def Let_def log_info_def log_error_def emit_def tick_def
      is_commit_event_def is_staging_event_def is_push_event_def split: option.splits)

lemma push_origin_frame:
  "head_commits (snd (push_origin env b w)) = head_commits w"
  "remotes (snd (push_origin env b w)) = remotes w"
  "files (snd (push_origin env b w)) = files w"
  "git_index (snd (push_origin env b w)) = git_index w"
  by (auto simp: push_origin_def git_def Let_def log_info_def log_error_def emit_def tick_def
      split: option.splits)

lemma push_origin_result:
  "(\<forall>t m. git_fails env t (GitPush (ustr ''origin'') b m)) \<Longrightarrow> fst (push_origin env b w) = Inl GitCommandError"
  "(\<forall>t m. \<not> git_fails env t (GitPush (ustr ''origin'') b m)) \<Longrightarrow> fst (push_origin env b w) = Inr ()"
  by (auto simp: push_origin_def git_def Let_def split: option.splits)

lemma push_secondary_run:
  "\<exists>pevs. trace (snd (push_secondary env b sec force w)) = trace w @ pevs
      \<and> list_all (\<lambda>e. \<not> is_commit_event e \<and> \<not> is_staging_event e) pevs
      \<and> (\<forall>e \<in> set pevs. e \<noteq> Git (GitPush (ustr ''origin'') b Plain) \<and> e \<noteq> Git (GitPush (ustr ''origin'') b SetUpstream)
             \<or> sec = Some (ustr ''origin''))"
  by (auto simp: push_secondary_def git_def Let_def log_info_def log_error_def emit_def tick_def
      is_commit_event_def is_staging_event_def split: option.splits)


lemma push_secondary_never_raises: "fst (push_secondary env b sec force w) = Inr ()"
  by (auto simp: push_secondary_def git_def Let_def split: option.splits)

lemma push_secondary_failure_logged:
  assumes "sec = Some n" "n \<noteq> []" "remotes w n \<noteq> None" "\<forall>t m. git_fails env t (GitPush n b m)"
  shows "new_events w (snd (push_secondary env b sec force w))
           = [Git (GitPush n b (if force then Force else Plain)), LogError (MsgPushFailed n)]"
  using assms
  by (auto simp: push_secondary_def git_def Let_def log_error_def emit_def tick_def new_events_def)

lemma push_secondary_skipped:
  assumes "sec = None \<or> sec = Some [] \<or> (\<exists>n. sec = Some n \<and> remotes w n = None)"
  shows "push_secondary env b sec force w = (Inr (), w)"
  using assms by (auto simp: push_secondary_def)

lemma spec_identity_prestage:
  assumes "prestage w w1"
  shows "spec_identity r s w1 = spec_identity r s w"
  using prestage_cfg[OF assms] by (simp add: spec_identity_def)

lemma git_add_all_ok:
  assumes "\<not> git_fails env (ticks w) GitAddAll"
  shows "\<exists>w'. git env GitAddAll w = (Inr (), w') \<and> git_index w' = files w \<and> files w' = files w
      \<and> head_commits w' = head_commits w \<and> remotes w' = remotes w \<and> active_branch w' = active_branch w
      \<and> trace w' = trace w @ [Git GitAddAll]"
  using assms by (simp add: git_def Let_def tick_def emit_def)

lemma commit_if_dirty_run:
  assumes "git_index w = files w"
  shows "\<exists>w' cev. commit_if_dirty msg a ad cd w = (Inr (), w') \<and> trace w' = trace w @ cev
      \<and> remotes w' = remotes w \<and> files w' = files w
      \<and> (files w \<noteq> head_tree w \<longrightarrow>
            (\<exists>c. cev = [CommitCreated c] \<and> head_commits w' = head_commits w @ [c]
               \<and> c_author c = a \<and> c_committer c = a \<and> c_message c = msg \<and> c_tree c = files w
               \<and> c_author_date c = (if truthy ad then ad else None)
               \<and> c_commit_date c = (if truthy cd then cd else None)))
      \<and> (files w = head_tree w \<longrightarrow> cev = [LogInfo MsgNothingToCommit] \<and> head_commits w' = head_commits w)"
  using assms
  by (auto simp: commit_if_dirty_def is_dirty_def Let_def emit_def log_info_def)

lemma commit_and_push_staged:
  assumes git_ok: "\<forall>t c. (\<forall>r b m. c \<noteq> GitPush r b m) \<longrightarrow> \<not> git_fails env t c"
    and ident: "\<forall>t. spec_identity (\<not> config_reader_fails env t) s w = (rn, re)" "rn \<noteq> []" "re \<noteq> []"
  obtains w4 pre cev where
    "commit_and_push env s b msg sec force ad cd w
       = bind (push_origin env b) (\<lambda>_. push_secondary env b sec force) w4"
    "trace w4 = trace w @ pre @ [Git GitAddAll] @ cev" "list_all quiet pre"
    "remotes w4 = remotes_ensured s w" "files w4 = files w"
    "files w \<noteq> head_tree w \<longrightarrow>
            (\<exists>c. cev = [CommitCreated c] \<and> head_commits w4 = head_commits w @ [c]
               \<and> c_author c = \<lparr>actor_name = rn, actor_email = re\<rparr>
               \<and> c_committer c = \<lparr>actor_name = rn, actor_email = re\<rparr>
               \<and> c_message c = msg \<and> c_tree c = files w
               \<and> c_author_date c = (if truthy ad then ad else None)
               \<and> c_commit_date c = (if truthy cd then cd else None))"
    "files w = head_tree w \<longrightarrow> cev = [LogInfo MsgNothingToCommit] \<and> head_commits w4 = head_commits w"
proof -
  let ?a = "\<lparr>actor_name = rn, actor_email = re\<rparr>"
  let ?P = "bind (push_origin env b) (\<lambda>_. push_secondary env b sec force)"
  let ?k = "\<lambda>_::unit. bind (ensure_repo_identity env s) (\<lambda>author_actor.
     bind (git env GitAddAll) (\<lambda>_.
     bind (commit_if_dirty msg author_actor ad cd) (\<lambda>_. ?P)))"
  have run: "commit_and_push env s b msg sec force ad cd =
     bind (ensure_remote_url env (repo_url s) (ustr ''origin'')) (\<lambda>_.
     bind (case secondary_remote_url s of
             None \<Rightarrow> ret ()
           | Some u \<Rightarrow> if u \<noteq> [] then ensure_remote_url env u (secondary_remote_name s) else ret ()) (\<lambda>_.
     bind (git env (GitCheckoutB b None)) ?k))"
    by (simp add: commit_and_push_def)
  from run show ?thesis
  proof (cases rule: commit_and_push_prefix[where w=w])
    case (failed w')
    with git_ok show ?thesis by blast
  next
    case (reached w1)
    note p1 = reached(1)
    from p1 have u1: "untouched w w1" and q1: "quiet_run w w1" by (simp_all add: prestage_def)
    \<comment> \<open>the identity\<close>
    obtain r2 w2 where e2: "ensure_repo_identity env s w1 = (r2, w2)"
      by (cases "ensure_repo_identity env s w1") auto
    have "spec_identity (\<not> config_reader_fails env (ticks w1)) s w1 = (rn, re)"
      using spec_identity_prestage[OF p1] ident(1) by simp
    with ensure_repo_identity_result[of env s w1] ident(2,3) e2 have r2: "r2 = Inr ?a" by simp
    from ensure_repo_identity_frame[where w=w1 and env=env and s=s] e2
    have u2: "untouched w1 w2" and q2: "quiet_run w1 w2" and rem2: "remotes w2 = remotes w1" by simp_all
    \<comment> \<open>staging\<close>
    from git_ok have "\<not> git_fails env (ticks w2) GitAddAll" by simp
    from git_add_all_ok[OF this] obtain w3 where
      g3: "git env GitAddAll w2 = (Inr (), w3)" and i3: "git_index w3 = files w2" and f3: "files w3 = files w2"
      and h3: "head_commits w3 = head_commits w2" and rem3: "remotes w3 = remotes w2"
      and t3: "trace w3 = trace w2 @ [Git GitAddAll]"
      by blast
    \<comment> \<open>the commit\<close>
    from i3 f3 have "git_index w3 = files w3" by simp
    from commit_if_dirty_run[OF this, of msg ?a ad cd] obtain w4 cev where
      c4: "commit_if_dirty msg ?a ad cd w3 = (Inr (), w4)" and t4: "trace w4 = trace w3 @ cev"
      and rem4: "remotes w4 = remotes w3" and f4: "files w4 = files w3"
      and d4: "files w3 \<noteq> head_tree w3 \<longrightarrow>
            (\<exists>c. cev = [CommitCreated c] \<and> head_commits w4 = head_commits w3 @ [c]
               \<and> c_author c = ?a \<and> c_committer c = ?a \<and> c_message c = msg \<and> c_tree c = files w3
               \<and> c_author_date c = (if truthy ad then ad else None)
               \<and> c_commit_date c = (if truthy cd then cd else None))"
      and n4: "files w3 = head_tree w3 \<longrightarrow> cev = [LogInfo MsgNothingToCommit] \<and> head_commits w4 = head_commits w3"
      by blast
    have fw: "files w3 = files w" using f3 u1 u2 by (simp add: untouched_def)
    have hw: "head_commits w3 = head_commits w" using h3 u1 u2 by (simp add: untouched_def)
    then have tw: "head_tree w3 = head_tree w" by (simp add: head_tree_def)
    from q1 obtain e1 where e1: "trace w1 = trace w @ e1" "list_all quiet e1" by (auto simp: quiet_run_def)
    from q2 obtain e2' where e2': "trace w2 = trace w1 @ e2'" "list_all quiet e2'" by (auto simp: quiet_run_def)
    have tr: "trace w4 = trace w @ (e1 @ e2') @ [Git GitAddAll] @ cev"
      using t4 t3 e1(1) e2'(1) by simp
    have qp: "list_all quiet (e1 @ e2')" using e1(2) e2'(2) by simp
    have whole: "commit_and_push env s b msg sec force ad cd w = ?P w4"
      using reached(4) e2 r2 g3 c4 by (simp add: bind_def)
    have rem: "remotes w4 = remotes_ensured s w" using rem4 rem3 rem2 reached(3) by simp
    show ?thesis
      using that[OF whole tr qp rem] f4 d4 n4 unfolding fw hw tw by simp
  qed
qed



lemma filter_push_quiet: "list_all quiet xs \<Longrightarrow> filter is_push_event xs = []"
  by (induction xs) (auto simp: quiet_def)



text \<open>
  C4. When the git commands before the push succeed and the identity resolves: a failing
  push to \<open>origin\<close> is logged and raised again, \<open>commit_and_push\<close> ends with
  \<open>GitCommandError\<close> and no push to another remote is attempted; when the push to
  \<open>origin\<close> succeeds, \<open>commit_and_push\<close> returns normally whatever the push to the
  secondary remote does, and a failing push to a configured, present secondary remote is
  attempted and logged.
\<close>

theorem primary_push_failure_raises_secondary_is_logged:
  assumes git_ok: "\<forall>t c. (\<forall>r b m. c \<noteq> GitPush r b m) \<longrightarrow> \<not> git_fails env t c"
    and ident: "\<forall>t. spec_identity (\<not> config_reader_fails env t) s w = (rn, re)" "rn \<noteq> []" "re \<noteq> []"
  shows "((\<forall>t m. git_fails env t (GitPush (ustr ''origin'') b m)) \<longrightarrow>
            fst (commit_and_push env s b msg sec force ad cd w) = Inl GitCommandError
          \<and> LogError MsgPushOriginFailed \<in> set (new_events w (snd (commit_and_push env s b msg sec force ad cd w)))
          \<and> (\<exists>m. filter is_push_event (new_events w (snd (commit_and_push env s b msg sec force ad cd w)))
                  = [Git (GitPush (ustr ''origin'') b m)]))
       \<and> ((\<forall>t m. \<not> git_fails env t (GitPush (ustr ''origin'') b m)) \<longrightarrow>
            fst (commit_and_push env s b msg sec force ad cd w) = Inr ()
          \<and> (\<forall>n. sec = Some n \<and> n \<noteq> [] \<and> remotes_ensured s w n \<noteq> None
                  \<and> (\<forall>t m. git_fails env t (GitPush n b m)) \<longrightarrow>
                 Git (GitPush n b (if force then Force else Plain))
                   \<in> set (new_events w (snd (commit_and_push env s b msg sec force ad cd w)))
               \<and> LogError (MsgPushFailed n)
                   \<in> set (new_events w (snd (commit_and_push env s b msg sec force ad cd w)))))"
proof -
  let ?w' = "snd (commit_and_push env s b msg sec force ad cd w)"
  let ?P = "bind (push_origin env b) (\<lambda>_. push_secondary env b sec force)"
  from git_ok ident obtain w4 pre cev where
    whole: "commit_and_push env s b msg sec force ad cd w = ?P w4"
    and t4: "trace w4 = trace w @ pre @ [Git GitAddAll] @ cev" and qp: "list_all quiet pre"
    and rem4: "remotes w4 = remotes_ensured s w"
    and d4: "files w \<noteq> head_tree w \<longrightarrow>
            (\<exists>c. cev = [CommitCreated c] \<and> head_commits w4 = head_commits w @ [c]
               \<and> c_author c = \<lparr>actor_name = rn, actor_email = re\<rparr>
               \<and> c_committer c = \<lparr>actor_name = rn, actor_email = re\<rparr>
               \<and> c_message c = msg \<and> c_tree c = files w
               \<and> c_author_date c = (if truthy ad then ad else None)
               \<and> c_commit_date c = (if truthy cd then cd else None))"
    and n4: "files w = head_tree w \<longrightarrow> cev = [LogInfo MsgNothingToCommit] \<and> head_commits w4 = head_commits w"
    by (rule commit_and_push_staged)
  have fcev: "filter is_push_event cev = []"
    using d4 n4 by (cases "files w = head_tree w") (auto simp: is_push_event_def)
  have fpre: "filter is_push_event (pre @ [Git GitAddAll] @ cev) = []"
    using filter_push_quiet[OF qp] fcev by (simp add: is_push_event_def)
  obtain r5 w5 where p5: "push_origin env b w4 = (r5, w5)" by (cases "push_origin env b w4") auto
  from push_origin_run[of env b w4] p5 obtain pevs m where
    t5: "trace w5 = trace w4 @ pevs"
    and f5: "filter is_push_event pevs = [Git (GitPush (ustr ''origin'') b m)]"
    and e5: "r5 = Inl GitCommandError \<longrightarrow> LogError MsgPushOriginFailed \<in> set pevs"
    by auto
  from push_origin_frame(2)[of env b w4] p5 rem4 have rem5: "remotes w5 = remotes_ensured s w" by simp
  show ?thesis
  proof (intro conjI impI allI)
    assume fail: "\<forall>t m. git_fails env t (GitPush (ustr ''origin'') b m)"
    from push_origin_result(1)[OF fail, of w4] p5 have r5: "r5 = Inl GitCommandError" by simp
    with p5 have P: "?P w4 = (Inl GitCommandError, w5)" by (simp add: bind_def)
    then have ne: "new_events w ?w' = pre @ [Git GitAddAll] @ cev @ pevs"
      unfolding whole using t5 t4 by (simp add: new_events_def)
    from P show "fst (commit_and_push env s b msg sec force ad cd w) = Inl GitCommandError"
      unfolding whole by simp
    from e5 r5 show "LogError MsgPushOriginFailed \<in> set (new_events w ?w')" unfolding ne by simp
    have "filter is_push_event (new_events w ?w') = [Git (GitPush (ustr ''origin'') b m)]"
      unfolding ne using filter_push_quiet[OF qp] fcev f5 by (simp add: is_push_event_def)
    then show "\<exists>m. filter is_push_event (new_events w ?w') = [Git (GitPush (ustr ''origin'') b m)]" ..
  next
    assume ok: "\<forall>t m. \<not> git_fails env t (GitPush (ustr ''origin'') b m)"
    from push_origin_result(2)[OF ok, of w4] p5 have r5: "r5 = Inr ()" by simp
    with p5 have P: "?P w4 = push_secondary env b sec force w5" by (simp add: bind_def)
    show "fst (commit_and_push env s b msg sec force ad cd w) = Inr ()"
      unfolding whole P by (rule push_secondary_never_raises)
    fix n
    assume a: "sec = Some n \<and> n \<noteq> [] \<and> remotes_ensured s w n \<noteq> None \<and> (\<forall>t m. git_fails env t (GitPush n b m))"
    then have s1: "sec = Some n" and s2: "n \<noteq> []" and s3: "remotes w5 n \<noteq> None"
      and s4: "\<forall>t m. git_fails env t (GitPush n b m)"
      using rem5 by simp_all
    from push_secondary_run[of env b sec force w5] obtain sevs where
      t6: "trace (snd (push_secondary env b sec force w5)) = trace w5 @ sevs" by blast
    then have "new_events w5 (snd (push_secondary env b sec force w5)) = sevs" by (simp add: new_events_def)
    with push_secondary_failure_logged[OF s1 s2 s3 s4, of force]
    have sevs: "sevs = [Git (GitPush n b (if force then Force else Plain)), LogError (MsgPushFailed n)]"
      by simp
    have ne: "new_events w ?w' = pre @ [Git GitAddAll] @ cev @ pevs @ sevs"
      unfolding whole P using t6 t5 t4 by (simp add: new_events_def)
    show "Git (GitPush n b (if force then Force else Plain)) \<in> set (new_events w ?w')"
      unfolding ne sevs by simp
    show "LogError (MsgPushFailed n) \<in> set (new_events w ?w')"
      unfolding ne sevs by simp
  qed
qed

lemma example_identity:
  "\<forall>t. spec_identity (\<not> config_reader_fails env t)
        (example_settings\<lparr>author_name := ustr ''Dev'', author_email := ustr ''dev@example.org''\<rparr>) w
      = (ustr ''Dev'', ustr ''dev@example.org'')"
  "ustr ''Dev'' \<noteq> []" "ustr ''dev@example.org'' \<noteq> []"
  by (simp_all add: spec_identity_def example_settings_def ustr_def)


theorem primary_push_failure_raises_secondary_is_logged_witness:
  "fst (commit_and_push
          (example_env\<lparr>git_fails := (\<lambda>t c. case c of GitPush r b m \<Rightarrow> r = ustr ''origin'' | _ \<Rightarrow> False)\<rparr>)
          (example_settings\<lparr>author_name := ustr ''Dev'', author_email := ustr ''dev@example.org''\<rparr>)
          (ustr ''main'') (ustr ''Update activities'') None True None None example_world)
     = Inl GitCommandError
   \<and> fst (commit_and_push
          (example_env\<lparr>git_fails := (\<lambda>t c. case c of GitPush r b m \<Rightarrow> r = ustr ''gitlab'' | _ \<Rightarrow> False)\<rparr>)
          (example_settings\<lparr>author_name := ustr ''Dev'', author_email := ustr ''dev@example.org'',
             secondary_remote_url := Some (ustr ''git@gitlab.com:USER/REPO.git'')\<rparr>)
          (ustr ''main'') (ustr ''Update activities'') (Some (ustr ''gitlab'')) True None None example_world)
     = Inr ()
   \<and> LogError (MsgPushFailed (ustr ''gitlab'')) \<in> set (new_events example_world (snd (commit_and_push
          (example_env\<lparr>git_fails := (\<lambda>t c. case c of GitPush r b m \<Rightarrow> r = ustr ''gitlab'' | _ \<Rightarrow> False)\<rparr>)
          (example_settings\<lparr>author_name := ustr ''Dev'', author_email := ustr ''dev@example.org'',
             secondary_remote_url := Some (ustr ''git@gitlab.com:USER/REPO.git'')\<rparr>)
          (ustr ''main'') (ustr ''Update activities'') (Some (ustr ''gitlab'')) True None None example_world)))"
proof -
  let ?e1 = "example_env\<lparr>git_fails := (\<lambda>t c. case c of GitPush r b m \<Rightarrow> r = ustr ''origin'' | _ \<Rightarrow> False)\<rparr>"
  let ?e2 = "example_env\<lparr>git_fails := (\<lambda>t c. case c of GitPush r b m \<Rightarrow> r = ustr ''gitlab'' | _ \<Rightarrow> False)\<rparr>"
  let ?s1 = "example_settings\<lparr>author_name := ustr ''Dev'', author_email := ustr ''dev@example.org''\<rparr>"
  let ?s2 = "example_settings\<lparr>author_name := ustr ''Dev'', author_email := ustr ''dev@example.org'',
             secondary_remote_url := Some (ustr ''git@gitlab.com:USER/REPO.git'')\<rparr>"
  have g1: "\<forall>t c. (\<forall>r b m. c \<noteq> GitPush r b m) \<longrightarrow> \<not> git_fails ?e1 t c"
    by (auto split: git_cmd.splits)
  have g2: "\<forall>t c. (\<forall>r b m. c \<noteq> GitPush r b m) \<longrightarrow> \<not> git_fails ?e2 t c"
    by (auto split: git_cmd.splits)
  have i2: "\<forall>t. spec_identity (\<not> config_reader_fails ?e2 t) ?s2 example_world = (ustr ''Dev'', ustr ''dev@example.org'')"
    by (simp add: spec_identity_def example_settings_def ustr_def)
  have f1: "\<forall>t m. git_fails ?e1 t (GitPush (ustr ''origin'') (ustr ''main'') m)" by simp
  have ne: "ustr ''origin'' \<noteq> ustr ''gitlab''" by (simp add: ustr_def)
  have o2: "\<forall>t m. \<not> git_fails ?e2 t (GitPush (ustr ''origin'') (ustr ''main'') m)" using ne by simp
  have f2: "Some (ustr ''gitlab'') = Some (ustr ''gitlab'') \<and> ustr ''gitlab'' \<noteq> []
      \<and> remotes_ensured ?s2 example_world (ustr ''gitlab'') \<noteq> None
      \<and> (\<forall>t m. git_fails ?e2 t (GitPush (ustr ''gitlab'') (ustr ''main'') m))"
    by (simp add: remotes_ensured_def example_settings_def ustr_def)
  note T1 = primary_push_failure_raises_secondary_is_logged[OF g1 example_identity,
      where w=example_world and b="ustr ''main''" and msg="ustr ''Update activities''" and sec=None
        and force=True and ad=None and cd=None]
  note T2 = primary_push_failure_raises_secondary_is_logged[OF g2 i2 example_identity(2,3),
      where b="ustr ''main''" and msg="ustr ''Update activities''" and sec="Some (ustr ''gitlab'')"
        and force=True and ad=None and cd=None]
  from T1 f1 have a: "fst (commit_and_push ?e1 ?s1 (ustr ''main'') (ustr ''Update activities'') None True
       None None example_world) = Inl GitCommandError"
    by blast
  from T2 o2 have b: "fst (commit_and_push ?e2 ?s2 (ustr ''main'') (ustr ''Update activities'')
       (Some (ustr ''gitlab'')) True None None example_world) = Inr ()"
    by blast
  from T2 o2 f2 have c: "LogError (MsgPushFailed (ustr ''gitlab'')) \<in> set (new_events example_world
      (snd (commit_and_push ?e2 ?s2 (ustr ''main'') (ustr ''Update activities'')
       (Some (ustr ''gitlab'')) True None None example_world)))"
    by blast
  from a b c show ?thesis by blast
qed


end
